theory Spec2Isabelle
  imports Complex_Main "HOL-Library.Multiset" "HOL-Library.Product_Lexorder"
begin

section \<open>Characters and strings\<close>

text \<open>
  A Python string is a sequence of code points. The model has the code points 0 to 255
  (Latin-1), as the 8-bit characters of an Isabelle string; a text is a list of them. On
  these code points the classes below are those of Python: \<^verbatim>\<open>str.lower\<close> maps the
  letters \<^verbatim>\<open>A-Z\<close> and the code points \<^verbatim>\<open>0xC0-0xD6\<close> and \<^verbatim>\<open>0xD8-0xDE\<close> to the code
  point 32 above them and nothing else; \<^verbatim>\<open>\s\<close> of a \<^verbatim>\<open>str\<close> pattern matches
  \<^verbatim>\<open>0x09-0x0D\<close>, \<^verbatim>\<open>0x1C-0x20\<close>, \<^verbatim>\<open>0x85\<close> and \<^verbatim>\<open>0xA0\<close>; \<^verbatim>\<open>\w\<close> matches the
  ASCII letters, the digits, the underscore and the Latin-1 letters and numbers.
\<close>

definition ascii_upper :: string where
  "ascii_upper = ''ABCDEFGHIJKLMNOPQRSTUVWXYZ''"

definition ascii_lower :: string where
  "ascii_lower = ''abcdefghijklmnopqrstuvwxyz''"

definition digit_chars :: string where
  "digit_chars = ''0123456789''"

text \<open>The upper-case letters \<^verbatim>\<open>0xC0-0xD6\<close> and \<^verbatim>\<open>0xD8-0xDE\<close> and their lower-case
  forms \<^verbatim>\<open>0xE0-0xF6\<close> and \<^verbatim>\<open>0xF8-0xFE\<close>.\<close>

definition latin_upper :: string where
  "latin_upper =
     [CHR 0xC0, CHR 0xC1, CHR 0xC2, CHR 0xC3, CHR 0xC4, CHR 0xC5, CHR 0xC6, CHR 0xC7,
      CHR 0xC8, CHR 0xC9, CHR 0xCA, CHR 0xCB, CHR 0xCC, CHR 0xCD, CHR 0xCE, CHR 0xCF,
      CHR 0xD0, CHR 0xD1, CHR 0xD2, CHR 0xD3, CHR 0xD4, CHR 0xD5, CHR 0xD6, CHR 0xD8,
      CHR 0xD9, CHR 0xDA, CHR 0xDB, CHR 0xDC, CHR 0xDD, CHR 0xDE]"

definition latin_lower :: string where
  "latin_lower =
     [CHR 0xE0, CHR 0xE1, CHR 0xE2, CHR 0xE3, CHR 0xE4, CHR 0xE5, CHR 0xE6, CHR 0xE7,
      CHR 0xE8, CHR 0xE9, CHR 0xEA, CHR 0xEB, CHR 0xEC, CHR 0xED, CHR 0xEE, CHR 0xEF,
      CHR 0xF0, CHR 0xF1, CHR 0xF2, CHR 0xF3, CHR 0xF4, CHR 0xF5, CHR 0xF6, CHR 0xF8,
      CHR 0xF9, CHR 0xFA, CHR 0xFB, CHR 0xFC, CHR 0xFD, CHR 0xFE]"

text \<open>The other code points above 127 that \<^verbatim>\<open>\w\<close> matches: the ordinal indicators,
  the superscript digits, the micro sign, the fractions, the sharp s and the y with
  diaeresis.\<close>

definition latin_other :: string where
  "latin_other =
     [CHR 0xAA, CHR 0xB2, CHR 0xB3, CHR 0xB5, CHR 0xB9, CHR 0xBA, CHR 0xBC, CHR 0xBD,
      CHR 0xBE, CHR 0xDF, CHR 0xFF]"

definition upper_letters :: string where
  "upper_letters = ascii_upper @ latin_upper"

definition lower_letters :: string where
  "lower_letters = ascii_lower @ latin_lower"

text \<open>The classes \<^verbatim>\<open>[a-zA-Z]\<close> and \<^verbatim>\<open>[a-zA-Z0-9]\<close> that the patterns spell out.\<close>

definition is_alpha :: "char \<Rightarrow> bool" where
  "is_alpha c = (c \<in> set (ascii_lower @ ascii_upper))"

definition is_alnum :: "char \<Rightarrow> bool" where
  "is_alnum c = (c \<in> set (ascii_lower @ ascii_upper @ digit_chars))"

text \<open>\<^verbatim>\<open>\w\<close>\<close>

definition is_word :: "char \<Rightarrow> bool" where
  "is_word c =
     (is_alnum c \<or> c = CHR ''_'' \<or> c \<in> set (latin_upper @ latin_lower @ latin_other))"

text \<open>\<^verbatim>\<open>\s\<close>\<close>

definition is_space :: "char \<Rightarrow> bool" where
  "is_space c =
     (c \<in> set
          [CHR 0x09, CHR 0x0A, CHR 0x0B, CHR 0x0C, CHR 0x0D, CHR 0x1C, CHR 0x1D, CHR 0x1E,
           CHR 0x1F, CHR 0x20, CHR 0x85, CHR 0xA0])"

text \<open>\<^verbatim>\<open>str.lower\<close>, code point by code point.\<close>

definition lower_char :: "char \<Rightarrow> char" where
  "lower_char c = (case map_of (zip upper_letters lower_letters) c of Some d \<Rightarrow> d | None \<Rightarrow> c)"

definition lower :: "string \<Rightarrow> string" where
  "lower s = map lower_char s"

section \<open>Regular expressions with backtracking\<close>

text \<open>
  The patterns of the program, with the matching order of Python's \<^verbatim>\<open>re\<close>:
  alternatives are tried from left to right and repetition is greedy. A position in the
  subject text is the pair of the text before the cursor (reversed) and the text after
  it. \<open>bt r p\<close> lists the positions where a match of \<open>r\<close> started at \<open>p\<close> can end, in the
  order in which a backtracking matcher finds them; the first one is the match.
\<close>

datatype re = Sym "char \<Rightarrow> bool" | Eps | Seq re re | Alt re re | Star re | Bol | Wordb

type_synonym pos = "string \<times> string"

definition at_boundary :: "pos \<Rightarrow> bool" where
  "at_boundary p =
     ((fst p \<noteq> [] \<and> is_word (hd (fst p))) \<noteq> (snd p \<noteq> [] \<and> is_word (hd (snd p))))"

function bt :: "re \<Rightarrow> pos \<Rightarrow> pos list" where
  "bt (Sym P) p = (case snd p of [] \<Rightarrow> [] | c # cs \<Rightarrow> if P c then [(c # fst p, cs)] else [])"
| "bt Eps p = [p]"
| "bt (Seq a b) p = concat (map (bt b) (bt a p))"
| "bt (Alt a b) p = bt a p @ bt b p"
| "bt (Star a) p =
     concat (map (\<lambda>q. if length (snd q) < length (snd p) then bt (Star a) q else []) (bt a p))
     @ [p]"
| "bt Bol p = (if fst p = [] then [p] else [])"
| "bt Wordb p = (if at_boundary p then [p] else [])"
  by pat_completeness auto
termination
  by (relation "measure size <*lex*> measure (\<lambda>p. length (snd p))") auto

text \<open>Pattern syntax: a literal character, an ASCII letter under
  \<^verbatim>\<open>re.IGNORECASE\<close> (which matches the letter in its two cases and no other code
  point), a word of such letters, \<^verbatim>\<open>x+\<close>, and a sequence or a choice of several
  patterns.\<close>

definition Chr :: "char \<Rightarrow> re" where
  "Chr c = Sym (\<lambda>x. x = c)"

definition Chr_ci :: "char \<Rightarrow> re" where
  "Chr_ci c = Sym (\<lambda>x. lower_char x = lower_char c)"

definition Seqs :: "re list \<Rightarrow> re" where
  "Seqs rs = foldr Seq rs Eps"

definition Lit_ci :: "string \<Rightarrow> re" where
  "Lit_ci s = Seqs (map Chr_ci s)"

definition Plus :: "re \<Rightarrow> re" where
  "Plus r = Seq r (Star r)"

fun Alts :: "re list \<Rightarrow> re" where
  "Alts [] = Seq Bol (Sym (\<lambda>x. False))"
| "Alts [r] = r"
| "Alts (r # rs) = Alt r (Alts rs)"

text \<open>The text matched between the position \<open>p\<close> where a match starts and the position
  \<open>q\<close> where it ends.\<close>

definition matched :: "pos \<Rightarrow> pos \<Rightarrow> string" where
  "matched p q = rev (take (length (fst q) - length (fst p)) (fst q))"

text \<open>\<^verbatim>\<open>re.search(r, s).group()\<close>: the first match at the leftmost position that has
  one; \<open>None\<close> when there is none.\<close>

fun search_from :: "re \<Rightarrow> string \<Rightarrow> string \<Rightarrow> string option" where
  "search_from r l [] = (case bt r (l, []) of [] \<Rightarrow> None | q # _ \<Rightarrow> Some (matched (l, []) q))"
| "search_from r l (c # cs) =
     (case bt r (l, c # cs) of
        [] \<Rightarrow> search_from r (c # l) cs
      | q # _ \<Rightarrow> Some (matched (l, c # cs) q))"

definition re_search :: "re \<Rightarrow> string \<Rightarrow> string option" where
  "re_search r s = search_from r [] s"

text \<open>\<^verbatim>\<open>re.findall(r, s)\<close> for a pattern without groups: the matches from left to
  right, each search starting where the previous match ended. None of the program's
  patterns matches the empty string; a position with only an empty match is skipped.\<close>

fun findall_from :: "re \<Rightarrow> string \<Rightarrow> string \<Rightarrow> string list" where
  "findall_from r l [] = []"
| "findall_from r l (c # cs) =
     (case bt r (l, c # cs) of
        [] \<Rightarrow> findall_from r (c # l) cs
      | q # _ \<Rightarrow>
          if length (snd q) < length (c # cs)
          then matched (l, c # cs) q # findall_from r (fst q) (snd q)
          else findall_from r (c # l) cs)"

definition re_findall :: "re \<Rightarrow> string \<Rightarrow> string list" where
  "re_findall r s = findall_from r [] s"

text \<open>\<^verbatim>\<open>re.sub(r, "", s)\<close>: the text with every match removed.\<close>

fun sub_from :: "re \<Rightarrow> string \<Rightarrow> string \<Rightarrow> string" where
  "sub_from r l [] = []"
| "sub_from r l (c # cs) =
     (case bt r (l, c # cs) of
        [] \<Rightarrow> c # sub_from r (c # l) cs
      | q # _ \<Rightarrow>
          if length (snd q) < length (c # cs)
          then sub_from r (fst q) (snd q)
          else c # sub_from r (c # l) cs)"

definition re_sub_empty :: "re \<Rightarrow> string \<Rightarrow> string" where
  "re_sub_empty r s = sub_from r [] s"

section \<open>The patterns of the analyzer\<close>

text \<open>\<^verbatim>\<open>^(Re|Fwd|FW|RE|FW):\s*\<close> with \<^verbatim>\<open>re.IGNORECASE\<close>.\<close>

definition prefix_re :: re where
  "prefix_re =
     Seqs [Bol, Alts (map Lit_ci [''Re'', ''Fwd'', ''FW'', ''RE'', ''FW'']), Chr CHR '':'',
           Star (Sym is_space)]"

text \<open>\<^verbatim>\<open>\b\w+\b\<close>\<close>

definition word_re :: re where
  "word_re = Seqs [Wordb, Plus (Sym is_word), Wordb]"

text \<open>\<^verbatim>\<open>\b[a-zA-Z]{3,}\b\<close>\<close>

definition keyword_re :: re where
  "keyword_re = Seqs [Wordb, Sym is_alpha, Sym is_alpha, Plus (Sym is_alpha), Wordb]"

text \<open>\<^verbatim>\<open>[a-zA-Z0-9._%+-]+@[a-zA-Z0-9.-]+\.[a-zA-Z]{2,}\<close>\<close>

definition local_char :: "char \<Rightarrow> bool" where
  "local_char c = (is_alnum c \<or> c \<in> set ''._%+-'')"

definition domain_char :: "char \<Rightarrow> bool" where
  "domain_char c = (is_alnum c \<or> c \<in> set ''.-'')"

definition domain_part_re :: re where
  "domain_part_re =
     Seqs [Plus (Sym domain_char), Chr CHR ''.'', Sym is_alpha, Plus (Sym is_alpha)]"

definition address_re :: re where
  "address_re = Seqs [Plus (Sym local_char), Chr CHR ''@'', domain_part_re]"

text \<open>\<^verbatim>\<open>@([a-zA-Z0-9.-]+\.[a-zA-Z]{2,})\<close>: group 1 is the match without its first
  character, the \<^verbatim>\<open>@\<close>.\<close>

definition at_domain_re :: re where
  "at_domain_re = Seqs [Chr CHR ''@'', domain_part_re]"

text \<open>The thread key of a subject: \<^verbatim>\<open>re.sub(..., "", subject).lower()\<close>.\<close>

definition clean_subject :: "string \<Rightarrow> string" where
  "clean_subject s = re_sub_empty prefix_re s"

definition thread_key :: "string \<Rightarrow> string" where
  "thread_key s = lower (clean_subject s)"

section \<open>Python values used by the analyzer\<close>

text \<open>\<^verbatim>\<open>str.split(c)\<close> for a one-character separator; the result is never empty.\<close>

fun split_on :: "char \<Rightarrow> string \<Rightarrow> string list" where
  "split_on c [] = [[]]"
| "split_on c (x # xs) =
     (if x = c then [] # split_on c xs
      else (case split_on c xs of [] \<Rightarrow> [[x]] | w # ws \<Rightarrow> (x # w) # ws))"

text \<open>An f-string renders an absent value as \<^verbatim>\<open>None\<close>.\<close>

definition format_str :: "string option \<Rightarrow> string" where
  "format_str v = (case v of None \<Rightarrow> ''None'' | Some s \<Rightarrow> s)"

text \<open>The truth value of a string field: \<^verbatim>\<open>None\<close> and the empty string are false.\<close>

definition truthy :: "string option \<Rightarrow> bool" where
  "truthy v = (case v of None \<Rightarrow> False | Some s \<Rightarrow> s \<noteq> [])"

text \<open>\<^verbatim>\<open>min\<close> and \<^verbatim>\<open>max\<close> of a non-empty list.\<close>

definition py_min :: "'a::linorder list \<Rightarrow> 'a" where
  "py_min xs = fold min (tl xs) (hd xs)"

definition py_max :: "'a::linorder list \<Rightarrow> 'a" where
  "py_max xs = fold max (tl xs) (hd xs)"

text \<open>Floats are modelled by the rationals: the true division of two integers is exact
  here and rounded to the nearest double in Python.\<close>

definition true_div :: "int \<Rightarrow> int \<Rightarrow> rat" where
  "true_div a b = of_int a / of_int b"

subsection \<open>Counters\<close>

text \<open>A \<^verbatim>\<open>Counter\<close> (and a \<^verbatim>\<open>defaultdict(int)\<close>) keeps its keys in the order of
  their first insertion. \<^verbatim>\<open>most_common(n)\<close> sorts by descending count and keeps
  the insertion order among equal counts.\<close>

type_synonym 'k counter = "('k \<times> nat) list"

fun counter_incr :: "'k \<Rightarrow> 'k counter \<Rightarrow> 'k counter" where
  "counter_incr k [] = [(k, 1)]"
| "counter_incr k ((k', n) # c) =
     (if k = k' then (k', n + 1) # c else (k', n) # counter_incr k c)"

definition counter_update :: "'k list \<Rightarrow> 'k counter \<Rightarrow> 'k counter" where
  "counter_update ks c = fold counter_incr ks c"

definition most_common :: "nat \<Rightarrow> 'k counter \<Rightarrow> ('k \<times> nat) list" where
  "most_common n c = take n (sort_key (\<lambda>kc. - int (snd kc)) c)"

text \<open>\<^verbatim>\<open>dict(...)\<close>: a dictionary that is returned is a finite map; two of them are
  equal when they have the same keys with the same values, as for Python's \<^verbatim>\<open>==\<close>.\<close>

definition dict_of :: "('k \<times> 'v) list \<Rightarrow> ('k \<rightharpoonup> 'v)" where
  "dict_of kvs = map_of kvs"

text \<open>A dictionary built from a literal with fixed keys is a record; \<open>Empty_dict\<close> is
  the dictionary \<^verbatim>\<open>{}\<close> that stands in its place in the empty results.\<close>

datatype 'a pydict = Empty_dict | Dict 'a

subsection \<open>The exception of the analyzer\<close>

text \<open>Comparing or subtracting dates of which one is \<^verbatim>\<open>None\<close>, or of which one is
  offset-naive and the other offset-aware, raises \<^verbatim>\<open>TypeError\<close>. It is the one
  exception that the analyzer can raise on a list of email messages.\<close>

datatype py_error = TypeError

subsection \<open>Datetimes\<close>

text \<open>A \<^verbatim>\<open>datetime\<close>: its seven fields and its UTC offset in microseconds, which is
  \<open>None\<close> for an offset-naive datetime (no \<^verbatim>\<open>tzinfo\<close>). A time zone is modelled by
  its offset, as for the fixed-offset zones that \<^verbatim>\<open>parsedate_to_datetime\<close> attaches.
  The fields of a Python datetime lie in their ranges (month 1 to 12, hour 0 to 23, and
  so on); the constructor refuses other values.\<close>

datatype datetime =
  Datetime (year: int) (month: int) (day: int) (hour: int) (minute: int) (second: int)
    (microsecond: int) (utcoffset: "int option")

definition dt_key :: "datetime \<Rightarrow> int \<times> int \<times> int \<times> int \<times> int \<times> int \<times> int" where
  "dt_key d = (year d, month d, day d, hour d, minute d, second d, microsecond d)"

text \<open>The proleptic Gregorian ordinal of a date and \<^verbatim>\<open>weekday()\<close> (Monday is 0), as
  in the \<^verbatim>\<open>datetime\<close> module.\<close>

definition is_leap :: "int \<Rightarrow> bool" where
  "is_leap y = (y mod 4 = 0 \<and> (y mod 100 \<noteq> 0 \<or> y mod 400 = 0))"

definition days_before_year :: "int \<Rightarrow> int" where
  "days_before_year y = (y - 1) * 365 + (y - 1) div 4 - (y - 1) div 100 + (y - 1) div 400"

definition days_before_month :: "int \<Rightarrow> int \<Rightarrow> int" where
  "days_before_month y m =
     [0, 0, 31, 59, 90, 120, 151, 181, 212, 243, 273, 304, 334] ! nat m
     + (if 2 < m \<and> is_leap y then 1 else 0)"

definition toordinal :: "datetime \<Rightarrow> int" where
  "toordinal d = days_before_year (year d) + days_before_month (year d) (month d) + day d"

definition weekday :: "datetime \<Rightarrow> int" where
  "weekday d = (toordinal d + 6) mod 7"

text \<open>The microseconds from the start of the ordinal day 0 to the fields of a datetime,
  its offset left aside.\<close>

definition total_microseconds :: "datetime \<Rightarrow> int" where
  "total_microseconds d =
     ((toordinal d * 24 + hour d) * 60 + minute d) * 60 * 1000000 + second d * 1000000
     + microsecond d"

text \<open>\<^verbatim>\<open>a - b\<close>, in microseconds: the difference of the fields when both have the same
  offset or none, \<^verbatim>\<open>TypeError\<close> when one of the two is naive and the other aware, and
  the difference of the two instants otherwise.\<close>

definition dt_sub :: "datetime \<Rightarrow> datetime \<Rightarrow> py_error + int" where
  "dt_sub a b =
     (let base = total_microseconds a - total_microseconds b
      in if utcoffset a = utcoffset b then Inr base
         else (case utcoffset a of
                 None \<Rightarrow> Inl TypeError
               | Some myoff \<Rightarrow>
                   (case utcoffset b of
                      None \<Rightarrow> Inl TypeError
                    | Some otoff \<Rightarrow> Inr (base + otoff - myoff))))"

text \<open>\<^verbatim>\<open>a < b\<close> and \<^verbatim>\<open>a > b\<close>: the comparison of the fields when both have the same
  offset or none, and the sign of \<^verbatim>\<open>a - b\<close> otherwise.\<close>

definition dt_lt :: "datetime \<Rightarrow> datetime \<Rightarrow> py_error + bool" where
  "dt_lt a b =
     (if utcoffset a = utcoffset b then Inr (dt_key a < dt_key b)
      else (case dt_sub a b of Inl err \<Rightarrow> Inl err | Inr diff \<Rightarrow> Inr (diff < 0)))"

definition dt_gt :: "datetime \<Rightarrow> datetime \<Rightarrow> py_error + bool" where
  "dt_gt a b =
     (if utcoffset a = utcoffset b then Inr (dt_key b < dt_key a)
      else (case dt_sub a b of Inl err \<Rightarrow> Inl err | Inr diff \<Rightarrow> Inr (0 < diff)))"

text \<open>\<^verbatim>\<open>min(dates)\<close> and \<^verbatim>\<open>max(dates)\<close> of a non-empty list: each item is compared
  with the minimum (maximum) so far and replaces it when it is less (greater).\<close>

fun min_loop :: "datetime \<Rightarrow> datetime list \<Rightarrow> py_error + datetime" where
  "min_loop m [] = Inr m"
| "min_loop m (x # xs) =
     (case dt_lt x m of Inl err \<Rightarrow> Inl err | Inr lt \<Rightarrow> min_loop (if lt then x else m) xs)"

fun max_loop :: "datetime \<Rightarrow> datetime list \<Rightarrow> py_error + datetime" where
  "max_loop m [] = Inr m"
| "max_loop m (x # xs) =
     (case dt_gt x m of
        Inl err \<Rightarrow> Inl err
      | Inr gt \<Rightarrow> max_loop (if gt then x else m) xs)"

definition min_dates :: "datetime list \<Rightarrow> py_error + datetime" where
  "min_dates dates = min_loop (hd dates) (tl dates)"

definition max_dates :: "datetime list \<Rightarrow> py_error + datetime" where
  "max_dates dates = max_loop (hd dates) (tl dates)"

text \<open>\<^verbatim>\<open>strftime('%Y-%m-%d')\<close> for a year from 1 to 9999: the fields of the datetime,
  whatever its offset.\<close>

fun show_nat :: "nat \<Rightarrow> string" where
  "show_nat n =
     (if n < 10 then [digit_chars ! n] else show_nat (n div 10) @ [digit_chars ! (n mod 10)])"

declare show_nat.simps [simp del]

definition zero_pad :: "nat \<Rightarrow> string \<Rightarrow> string" where
  "zero_pad w s = replicate (w - length s) CHR ''0'' @ s"

definition strftime_ymd :: "datetime \<Rightarrow> string" where
  "strftime_ymd d =
     zero_pad 4 (show_nat (nat (year d))) @ ''-'' @ zero_pad 2 (show_nat (nat (month d)))
     @ ''-'' @ zero_pad 2 (show_nat (nat (day d)))"

text \<open>A stable sort by a less-than test, as \<^verbatim>\<open>sorted\<close> is: of two elements neither of
  which is less than the other, the one that is first in the input is first in the
  result.\<close>

fun insort_by :: "('a \<Rightarrow> 'a \<Rightarrow> bool) \<Rightarrow> 'a \<Rightarrow> 'a list \<Rightarrow> 'a list" where
  "insort_by lt x [] = [x]"
| "insort_by lt x (y # ys) = (if lt y x then y # insort_by lt x ys else x # y # ys)"

definition sort_by :: "('a \<Rightarrow> 'a \<Rightarrow> bool) \<Rightarrow> 'a list \<Rightarrow> 'a list" where
  "sort_by lt xs = foldr (insort_by lt) xs []"

section \<open>Email messages\<close>

text \<open>The dataclass \<^verbatim>\<open>EmailMessage\<close>. A subject, a sender or a date may be absent
  (\<^verbatim>\<open>None\<close>). The field \<^verbatim>\<open>size\<close> is named \<open>size_bytes\<close> here.\<close>

record email_message =
  uid :: string
  subject :: "string option"
  sender :: "string option"
  recipients :: "string list"
  date :: "datetime option"
  body :: string
  html_body :: string
  attachments :: "string list"
  flags :: "string list"
  size_bytes :: int
  thread_id :: "string option"
  reply_to :: "string option"
  cc :: "string list"
  bcc :: "string list"

section \<open>The analyzer\<close>

text \<open>The methods of \<^verbatim>\<open>EmailAnalyzer\<close>, without the leading underscore of their
  names. A \<^verbatim>\<open>for\<close> loop over the emails is a \<open>fold\<close> of its body over the list.\<close>

subsection \<open>Date range and total size\<close>

text \<open>\<^verbatim>\<open>[email.date for email in emails if email.date]\<close>: a datetime is always
  truthy, so the test drops the dates that are \<^verbatim>\<open>None\<close>.\<close>

definition dates_of :: "email_message list \<Rightarrow> datetime list" where
  "dates_of emails =
     map (\<lambda>email. the (date email)) (filter (\<lambda>email. date email \<noteq> None) emails)"

text \<open>\<^verbatim>\<open>_get_date_range\<close> raises when \<^verbatim>\<open>min\<close> or \<^verbatim>\<open>max\<close> does.\<close>

definition get_date_range :: "email_message list \<Rightarrow> py_error + string" where
  "get_date_range emails =
     (if emails = [] then Inr ''No emails''
      else let dates = dates_of emails
           in if dates = [] then Inr ''No valid dates''
              else (case min_dates dates of
                      Inl err \<Rightarrow> Inl err
                    | Inr min_date \<Rightarrow>
                        (case max_dates dates of
                           Inl err \<Rightarrow> Inl err
                         | Inr max_date \<Rightarrow>
                             Inr (strftime_ymd min_date @ '' to '' @ strftime_ymd max_date))))"

definition calculate_total_size :: "email_message list \<Rightarrow> rat" where
  "calculate_total_size emails = true_div (sum_list (map size_bytes emails)) (1024 * 1024)"

subsection \<open>Senders and domains\<close>

definition sender_step :: "email_message \<Rightarrow> string counter \<Rightarrow> string counter" where
  "sender_step email counts =
     (case sender email of
        None \<Rightarrow> counts
      | Some s \<Rightarrow>
          if s = [] then counts
          else (case re_search address_re s of
                  Some email_match \<Rightarrow> counter_incr email_match counts
                | None \<Rightarrow> counter_incr s counts))"

definition sender_counter :: "email_message list \<Rightarrow> string counter" where
  "sender_counter emails = fold sender_step emails []"

definition analyze_senders :: "email_message list \<Rightarrow> (string \<times> nat) list" where
  "analyze_senders emails = most_common 20 (sender_counter emails)"

definition domain_step :: "email_message \<Rightarrow> string counter \<Rightarrow> string counter" where
  "domain_step email counts =
     (case sender email of
        None \<Rightarrow> counts
      | Some s \<Rightarrow>
          if s = [] then counts
          else (case re_search at_domain_re s of
                  Some domain_match \<Rightarrow> counter_incr (tl domain_match) counts
                | None \<Rightarrow> counts))"

definition domain_counter :: "email_message list \<Rightarrow> string counter" where
  "domain_counter emails = fold domain_step emails []"

record domain_stats =
  top_domains :: "(string \<times> nat) list"
  total_domains :: nat
  domain_diversity :: rat

definition analyze_domains :: "email_message list \<Rightarrow> domain_stats" where
  "analyze_domains emails =
     \<lparr>top_domains = most_common 20 (domain_counter emails),
      total_domains = length (domain_counter emails),
      domain_diversity =
        (if emails \<noteq> [] then true_div (int (length (domain_counter emails))) (int (length emails))
         else 0)\<rparr>"

subsection \<open>Activity by time of day, weekday and hour\<close>

definition time_band :: "int \<Rightarrow> string" where
  "time_band h =
     (if 6 \<le> h \<and> h < 12 then ''Morning (6-12)''
      else if 12 \<le> h \<and> h < 17 then ''Afternoon (12-17)''
      else if 17 \<le> h \<and> h < 22 then ''Evening (17-22)''
      else ''Night (22-6)'')"

definition time_activity :: "email_message list \<Rightarrow> string counter" where
  "time_activity emails =
     fold (\<lambda>email activity.
             case date email of
               None \<Rightarrow> activity
             | Some d \<Rightarrow> counter_incr (time_band (hour d)) activity)
       emails []"

definition analyze_time_activity :: "email_message list \<Rightarrow> (string \<rightharpoonup> nat)" where
  "analyze_time_activity emails = dict_of (time_activity emails)"

definition day_names :: "string list" where
  "day_names =
     [''Monday'', ''Tuesday'', ''Wednesday'', ''Thursday'', ''Friday'', ''Saturday'', ''Sunday'']"

definition daily_activity :: "email_message list \<Rightarrow> string counter" where
  "daily_activity emails =
     fold (\<lambda>email activity.
             case date email of
               None \<Rightarrow> activity
             | Some d \<Rightarrow> counter_incr (day_names ! nat (weekday d)) activity)
       emails []"

definition analyze_daily_activity :: "email_message list \<Rightarrow> (string \<rightharpoonup> nat)" where
  "analyze_daily_activity emails = dict_of (daily_activity emails)"

definition hourly_activity :: "email_message list \<Rightarrow> int counter" where
  "hourly_activity emails =
     fold (\<lambda>email activity.
             case date email of
               None \<Rightarrow> activity
             | Some d \<Rightarrow> counter_incr (hour d) activity)
       emails []"

definition analyze_hourly_activity :: "email_message list \<Rightarrow> (int \<rightharpoonup> nat)" where
  "analyze_hourly_activity emails = dict_of (hourly_activity emails)"

subsection \<open>Subjects\<close>

record subject_stats =
  avg_length :: rat
  max_length :: nat
  min_length :: nat
  common_words :: "(string \<times> nat) list"
  total_words :: nat

text \<open>The state of the loop: \<^verbatim>\<open>subject_lengths\<close>, \<^verbatim>\<open>subject_words\<close> and
  the counter \<^verbatim>\<open>common_words\<close> (here \<open>word_counts\<close>).\<close>

definition subject_step ::
  "email_message \<Rightarrow> nat list \<times> string list \<times> string counter
     \<Rightarrow> nat list \<times> string list \<times> string counter" where
  "subject_step email st =
     (case st of (subject_lengths, subject_words, word_counts) \<Rightarrow>
        (case subject email of
           None \<Rightarrow> st
         | Some s \<Rightarrow>
             if s = [] then st
             else let words = re_findall word_re (lower s)
                  in (subject_lengths @ [length s], subject_words @ words,
                      counter_update words word_counts)))"

definition subject_loop :: "email_message list \<Rightarrow> nat list \<times> string list \<times> string counter" where
  "subject_loop emails = fold subject_step emails ([], [], [])"

definition analyze_subjects :: "email_message list \<Rightarrow> subject_stats" where
  "analyze_subjects emails =
     (case subject_loop emails of (subject_lengths, subject_words, word_counts) \<Rightarrow>
        \<lparr>avg_length =
           (if subject_lengths \<noteq> []
            then true_div (int (sum_list subject_lengths)) (int (length subject_lengths)) else 0),
         max_length = (if subject_lengths \<noteq> [] then py_max subject_lengths else 0),
         min_length = (if subject_lengths \<noteq> [] then py_min subject_lengths else 0),
         common_words = most_common 20 word_counts,
         total_words = length subject_words\<rparr>)"

subsection \<open>Attachments\<close>

record attachment_stats =
  emails_with_attachments :: nat
  total_attachments :: nat
  attachment_types :: "string \<rightharpoonup> nat"
  attachment_rate :: rat

definition extension_key :: "string \<Rightarrow> string" where
  "extension_key attachment =
     (if CHR ''.'' \<in> set attachment then lower (last (split_on CHR ''.'' attachment))
      else ''no_extension'')"

text \<open>The state of the loop: the counter \<^verbatim>\<open>attachment_types\<close> (here \<open>types\<close>),
  \<^verbatim>\<open>emails_with_attachments\<close> (here \<open>with_attachments\<close>) and
  \<^verbatim>\<open>total_attachments\<close> (here \<open>n_attachments\<close>).\<close>

definition attachment_step ::
  "email_message \<Rightarrow> string counter \<times> nat \<times> nat \<Rightarrow> string counter \<times> nat \<times> nat" where
  "attachment_step email st =
     (case st of (types, with_attachments, n_attachments) \<Rightarrow>
        if attachments email \<noteq> []
        then (fold (\<lambda>attachment. counter_incr (extension_key attachment)) (attachments email)
                types,
              with_attachments + 1,
              n_attachments + length (attachments email))
        else st)"

definition attachment_loop :: "email_message list \<Rightarrow> string counter \<times> nat \<times> nat" where
  "attachment_loop emails = fold attachment_step emails ([], 0, 0)"

definition analyze_attachments :: "email_message list \<Rightarrow> attachment_stats" where
  "analyze_attachments emails =
     (case attachment_loop emails of (types, with_attachments, n_attachments) \<Rightarrow>
        \<lparr>emails_with_attachments = with_attachments,
         total_attachments = n_attachments,
         attachment_types = dict_of (most_common 10 types),
         attachment_rate =
           (if emails \<noteq> []
            then true_div (int with_attachments) (int (length emails)) * 100 else 0)\<rparr>)"

subsection \<open>Size distribution\<close>

record size_stats =
  size_ranges :: "string \<rightharpoonup> nat"
  avg_size :: rat
  max_size :: int
  min_size :: int

definition size_band :: "int \<Rightarrow> string" where
  "size_band sz =
     (if sz < 1024 then ''Small (< 1KB)''
      else if sz < 10 * 1024 then ''Medium (1KB - 10KB)''
      else if sz < 100 * 1024 then ''Large (10KB - 100KB)''
      else ''Very Large (> 100KB)'')"

definition size_ranges_init :: "string counter" where
  "size_ranges_init =
     [(''Small (< 1KB)'', 0), (''Medium (1KB - 10KB)'', 0), (''Large (10KB - 100KB)'', 0),
      (''Very Large (> 100KB)'', 0)]"

definition size_ranges_loop :: "int list \<Rightarrow> string counter" where
  "size_ranges_loop sizes = fold (\<lambda>sz. counter_incr (size_band sz)) sizes size_ranges_init"

definition analyze_size_distribution :: "email_message list \<Rightarrow> size_stats pydict" where
  "analyze_size_distribution emails =
     (let sizes = map size_bytes emails
      in if sizes = [] then Empty_dict
         else Dict \<lparr>size_ranges = dict_of (size_ranges_loop sizes),
                    avg_size = true_div (sum_list sizes) (int (length sizes)),
                    max_size = py_max sizes,
                    min_size = py_min sizes\<rparr>)"

subsection \<open>Threads\<close>

text \<open>\<^verbatim>\<open>thread_groups\<close> is a \<^verbatim>\<open>defaultdict(list)\<close>: the keys in the order of their
  first insertion, each with its emails in the order of the input. Thread analysis and
  response-time analysis build it by the same loop.\<close>

fun group_append :: "'k \<Rightarrow> 'v \<Rightarrow> ('k \<times> 'v list) list \<Rightarrow> ('k \<times> 'v list) list" where
  "group_append k v [] = [(k, [v])]"
| "group_append k v ((k', vs) # g) =
     (if k = k' then (k', vs @ [v]) # g else (k', vs) # group_append k v g)"

definition group_step ::
  "email_message \<Rightarrow> (string \<times> email_message list) list \<Rightarrow> (string \<times> email_message list) list"
  where
  "group_step email groups =
     (case subject email of
        None \<Rightarrow> groups
      | Some s \<Rightarrow> if s = [] then groups else group_append (thread_key s) email groups)"

definition thread_groups :: "email_message list \<Rightarrow> (string \<times> email_message list) list" where
  "thread_groups emails = fold group_step emails []"

text \<open>One entry of \<^verbatim>\<open>thread_stats\<close>: the keys \<^verbatim>\<open>subject\<close>, \<^verbatim>\<open>count\<close> and
  \<^verbatim>\<open>date_range\<close>.\<close>

record thread_stat =
  thread_subject :: string
  thread_count :: nat
  thread_date_range :: string

record thread_stats =
  total_threads :: nat
  largest_thread :: "thread_stat option"
  avg_thread_size :: rat
  top_threads :: "thread_stat list"

text \<open>The loop that builds the list \<^verbatim>\<open>thread_stats\<close>, one entry for each group of two
  or more emails; it raises when the date range of such a group does.\<close>

fun thread_stats_loop ::
  "(string \<times> email_message list) list \<Rightarrow> thread_stat list \<Rightarrow> py_error + thread_stat list"
  where
  "thread_stats_loop [] stats = Inr stats"
| "thread_stats_loop (g # groups) stats =
     (if 1 < length (snd g)
      then (case get_date_range (snd g) of
              Inl err \<Rightarrow> Inl err
            | Inr dates \<Rightarrow>
                thread_stats_loop groups
                  (stats @ [\<lparr>thread_subject = fst g, thread_count = length (snd g),
                              thread_date_range = dates\<rparr>]))
      else thread_stats_loop groups stats)"

text \<open>The result, from the list \<^verbatim>\<open>thread_stats\<close> as the loop leaves it:
  \<^verbatim>\<open>sort(key=count, reverse=True)\<close> is a stable sort.\<close>

definition thread_summary :: "thread_stat list \<Rightarrow> thread_stats" where
  "thread_summary unsorted =
     (let stats = sort_key (\<lambda>t. - int (thread_count t)) unsorted
      in \<lparr>total_threads = length (filter (\<lambda>t. 1 < thread_count t) stats),
          largest_thread = (if stats \<noteq> [] then Some (hd stats) else None),
          avg_thread_size =
            (if stats \<noteq> []
             then true_div (int (sum_list (map thread_count stats))) (int (length stats))
             else 0),
          top_threads = take 10 stats\<rparr>)"

definition analyze_threads :: "email_message list \<Rightarrow> py_error + thread_stats" where
  "analyze_threads emails =
     (case thread_stats_loop (thread_groups emails) [] of
        Inl err \<Rightarrow> Inl err
      | Inr unsorted \<Rightarrow> Inr (thread_summary unsorted))"

subsection \<open>Sentiment\<close>

definition positive_words :: "string list" where
  "positive_words =
     [''good'', ''great'', ''excellent'', ''amazing'', ''wonderful'', ''fantastic'', ''awesome'',
      ''perfect'', ''love'', ''like'', ''happy'', ''pleased'', ''satisfied'', ''thank'',
      ''thanks'', ''appreciate'']"

definition negative_words :: "string list" where
  "negative_words =
     [''bad'', ''terrible'', ''awful'', ''horrible'', ''disappointed'', ''angry'',
      ''frustrated'', ''hate'', ''dislike'', ''upset'', ''sad'', ''sorry'', ''apologize'',
      ''problem'', ''issue'', ''error'']"

text \<open>\<^verbatim>\<open>f"{email.subject} {email.body}".lower()\<close>\<close>

definition email_text :: "email_message \<Rightarrow> string" where
  "email_text email = lower (format_str (subject email) @ '' '' @ body email)"

text \<open>\<^verbatim>\<open>len(words.intersection(vocabulary))\<close> for the set \<^verbatim>\<open>words\<close> of the
  tokens of a text: the number of vocabulary words among them.\<close>

definition matches :: "string list \<Rightarrow> string list \<Rightarrow> nat" where
  "matches words vocabulary = length (filter (\<lambda>w. w \<in> set words) (remdups vocabulary))"

record sentiment_stats =
  positive :: nat
  negative :: nat
  neutral :: nat
  positive_percentage :: rat
  negative_percentage :: rat
  neutral_percentage :: rat

text \<open>The state of the loop: \<^verbatim>\<open>positive_count\<close>, \<^verbatim>\<open>negative_count\<close> and
  \<^verbatim>\<open>neutral_count\<close>.\<close>

definition sentiment_step :: "email_message \<Rightarrow> nat \<times> nat \<times> nat \<Rightarrow> nat \<times> nat \<times> nat" where
  "sentiment_step email st =
     (case st of (positive_count, negative_count, neutral_count) \<Rightarrow>
        let words = re_findall word_re (email_text email);
            positive_matches = matches words positive_words;
            negative_matches = matches words negative_words
        in if negative_matches < positive_matches
           then (positive_count + 1, negative_count, neutral_count)
           else if positive_matches < negative_matches
           then (positive_count, negative_count + 1, neutral_count)
           else (positive_count, negative_count, neutral_count + 1))"

definition sentiment_loop :: "email_message list \<Rightarrow> nat \<times> nat \<times> nat" where
  "sentiment_loop emails = fold sentiment_step emails (0, 0, 0)"

definition percentage :: "nat \<Rightarrow> nat \<Rightarrow> rat" where
  "percentage n all = (if 0 < all then true_div (int n) (int all) * 100 else 0)"

definition analyze_sentiment :: "email_message list \<Rightarrow> sentiment_stats" where
  "analyze_sentiment emails =
     (case sentiment_loop emails of (positive_count, negative_count, neutral_count) \<Rightarrow>
        \<lparr>positive = positive_count, negative = negative_count, neutral = neutral_count,
         positive_percentage = percentage positive_count (length emails),
         negative_percentage = percentage negative_count (length emails),
         neutral_percentage = percentage neutral_count (length emails)\<rparr>)"

subsection \<open>Keywords\<close>

definition stop_words :: "string list" where
  "stop_words =
     [''the'', ''a'', ''an'', ''and'', ''or'', ''but'', ''in'', ''on'', ''at'', ''to'', ''for'',
      ''of'', ''with'', ''by'', ''is'', ''are'', ''was'', ''were'', ''be'', ''been'', ''have'',
      ''has'', ''had'', ''do'', ''does'', ''did'', ''will'', ''would'', ''could'', ''should'',
      ''may'', ''might'', ''can'', ''this'', ''that'', ''these'', ''those'', ''i'', ''you'',
      ''he'', ''she'', ''it'', ''we'', ''they'', ''me'', ''him'', ''her'', ''us'', ''them'',
      ''my'', ''your'', ''his'', ''her'', ''its'', ''our'', ''their'']"

definition filtered_words :: "email_message \<Rightarrow> string list" where
  "filtered_words email =
     filter (\<lambda>word. word \<notin> set stop_words) (re_findall keyword_re (email_text email))"

definition word_counter :: "email_message list \<Rightarrow> string counter" where
  "word_counter emails =
     fold (\<lambda>email counts. counter_update (filtered_words email) counts) emails []"

record keyword_stats =
  top_keywords :: "(string \<times> nat) list"
  total_unique_words :: nat
  most_common_word :: "(string \<times> nat) option"

definition analyze_keywords :: "email_message list \<Rightarrow> keyword_stats" where
  "analyze_keywords emails =
     (let counts = word_counter emails
      in \<lparr>top_keywords = most_common 50 counts,
          total_unique_words = length counts,
          most_common_word = (if counts \<noteq> [] then Some (hd (most_common 1 counts)) else None)\<rparr>)"

subsection \<open>Response times\<close>

text \<open>The comparison \<^verbatim>\<open>a < b\<close> and the difference \<^verbatim>\<open>a - b\<close> of two sort keys
  \<^verbatim>\<open>x.date\<close>, each a datetime or \<^verbatim>\<open>None\<close>.\<close>

definition date_lt :: "datetime option \<Rightarrow> datetime option \<Rightarrow> py_error + bool" where
  "date_lt a b =
     (case a of
        None \<Rightarrow> Inl TypeError
      | Some x \<Rightarrow> (case b of None \<Rightarrow> Inl TypeError | Some y \<Rightarrow> dt_lt x y))"

definition date_sub :: "datetime option \<Rightarrow> datetime option \<Rightarrow> py_error + int" where
  "date_sub a b =
     (case a of
        None \<Rightarrow> Inl TypeError
      | Some x \<Rightarrow> (case b of None \<Rightarrow> Inl TypeError | Some y \<Rightarrow> dt_sub x y))"

text \<open>Every two keys of the list can be compared: none is \<^verbatim>\<open>None\<close>, and they are all
  naive or all aware.\<close>

definition sortable :: "datetime option list \<Rightarrow> bool" where
  "sortable keys = list_all (\<lambda>a. list_all (\<lambda>b. date_lt a b \<noteq> Inl TypeError) keys) keys"

text \<open>\<^verbatim>\<open>sorted(thread_emails, key=lambda x: x.date)\<close>. A sort of two or more elements
  compares every element with another one, and it cannot place two elements without a
  chain of comparisons between them: it raises exactly when the comparison of two of
  the keys does. Otherwise the result is the stable sort by \<^verbatim>\<open><\<close>.\<close>

definition sorted_by_date :: "email_message list \<Rightarrow> py_error + email_message list" where
  "sorted_by_date thread_emails =
     (if 1 < length thread_emails \<and> \<not> sortable (map date thread_emails) then Inl TypeError
      else Inr (sort_by (\<lambda>a b. date_lt (date a) (date b) = Inr True) thread_emails))"

text \<open>The inner loop: the hours between each email and the one before it,
  \<^verbatim>\<open>time_diff.total_seconds() / 3600\<close>, appended to \<^verbatim>\<open>response_times\<close>.\<close>

fun time_diffs :: "email_message list \<Rightarrow> rat list \<Rightarrow> py_error + rat list" where
  "time_diffs (a # b # rest) response_times =
     (case date_sub (date b) (date a) of
        Inl err \<Rightarrow> Inl err
      | Inr time_diff \<Rightarrow>
          time_diffs (b # rest) (response_times @ [of_int time_diff / 1000000 / 3600]))"
| "time_diffs _ response_times = Inr response_times"

text \<open>The outer loop over \<^verbatim>\<open>thread_groups.values()\<close>, with the list
  \<^verbatim>\<open>response_times\<close> as its state.\<close>

fun response_loop :: "email_message list list \<Rightarrow> rat list \<Rightarrow> py_error + rat list" where
  "response_loop [] response_times = Inr response_times"
| "response_loop (thread_emails # rest) response_times =
     (if 1 < length thread_emails
      then (case sorted_by_date thread_emails of
              Inl err \<Rightarrow> Inl err
            | Inr sorted_emails \<Rightarrow>
                (case time_diffs sorted_emails response_times of
                   Inl err \<Rightarrow> Inl err
                 | Inr response_times' \<Rightarrow> response_loop rest response_times'))
      else response_loop rest response_times)"

record response_stats =
  avg_response_time_hours :: rat
  min_response_time_hours :: rat
  max_response_time_hours :: rat
  response_time_samples :: nat

definition response_stats_of :: "rat list \<Rightarrow> response_stats" where
  "response_stats_of response_times =
     (if response_times \<noteq> []
      then \<lparr>avg_response_time_hours = sum_list response_times / of_nat (length response_times),
            min_response_time_hours = py_min response_times,
            max_response_time_hours = py_max response_times,
            response_time_samples = length response_times\<rparr>
      else \<lparr>avg_response_time_hours = 0, min_response_time_hours = 0,
            max_response_time_hours = 0, response_time_samples = 0\<rparr>)"

definition analyze_response_times :: "email_message list \<Rightarrow> py_error + response_stats" where
  "analyze_response_times emails =
     (case response_loop (map snd (thread_groups emails)) [] of
        Inl err \<Rightarrow> Inl err
      | Inr response_times \<Rightarrow> Inr (response_stats_of response_times))"

subsection \<open>The bundle\<close>

record analysis_results =
  total_emails :: nat
  date_range :: string
  total_size_mb :: rat
  top_senders :: "(string \<times> nat) list"
  activity_by_time :: "string \<rightharpoonup> nat"
  activity_by_day :: "string \<rightharpoonup> nat"
  activity_by_hour :: "int \<rightharpoonup> nat"
  subject_analysis :: "subject_stats pydict"
  attachment_analysis :: "attachment_stats pydict"
  email_size_distribution :: "size_stats pydict"
  thread_analysis :: "thread_stats pydict"
  domain_analysis :: "domain_stats pydict"
  sentiment_analysis :: "sentiment_stats pydict"
  keyword_analysis :: "keyword_stats pydict"
  response_time_analysis :: "response_stats pydict"

definition empty_results :: analysis_results where
  "empty_results =
     \<lparr>total_emails = 0, date_range = ''No emails'', total_size_mb = 0, top_senders = [],
      activity_by_time = Map.empty, activity_by_day = Map.empty, activity_by_hour = Map.empty,
      subject_analysis = Empty_dict, attachment_analysis = Empty_dict,
      email_size_distribution = Empty_dict, thread_analysis = Empty_dict,
      domain_analysis = Empty_dict, sentiment_analysis = Empty_dict,
      keyword_analysis = Empty_dict, response_time_analysis = Empty_dict\<rparr>"

text \<open>\<^verbatim>\<open>analyze_emails\<close> builds the dictionary entry by entry, in the order of the
  source, and has no \<^verbatim>\<open>try\<close>: the first sub-statistic that raises ends the call with
  its exception. The date range, thread analysis and response-time analysis are the
  entries that can raise.\<close>

definition analyze_emails :: "email_message list \<Rightarrow> py_error + analysis_results" where
  "analyze_emails emails =
     (if emails = [] then Inr empty_results
      else (case get_date_range emails of
              Inl err \<Rightarrow> Inl err
            | Inr dates \<Rightarrow>
                (case analyze_threads emails of
                   Inl err \<Rightarrow> Inl err
                 | Inr threads \<Rightarrow>
                     (case analyze_response_times emails of
                        Inl err \<Rightarrow> Inl err
                      | Inr response_times \<Rightarrow>
                          Inr \<lparr>total_emails = length emails,
                               date_range = dates,
                               total_size_mb = calculate_total_size emails,
                               top_senders = analyze_senders emails,
                               activity_by_time = analyze_time_activity emails,
                               activity_by_day = analyze_daily_activity emails,
                               activity_by_hour = analyze_hourly_activity emails,
                               subject_analysis = Dict (analyze_subjects emails),
                               attachment_analysis = Dict (analyze_attachments emails),
                               email_size_distribution = analyze_size_distribution emails,
                               thread_analysis = Dict threads,
                               domain_analysis = Dict (analyze_domains emails),
                               sentiment_analysis = Dict (analyze_sentiment emails),
                               keyword_analysis = Dict (analyze_keywords emails),
                               response_time_analysis = Dict response_times\<rparr>))))"

section \<open>Example inputs\<close>

text \<open>An email message with the given subject, sender, date, body, attachments and size;
  the fields that the analyzer does not read are empty.\<close>

definition message ::
  "string option \<Rightarrow> string option \<Rightarrow> datetime option \<Rightarrow> string \<Rightarrow> string list \<Rightarrow> int
     \<Rightarrow> email_message" where
  "message subj sndr d txt atts sz =
     \<lparr>uid = [], subject = subj, sender = sndr, recipients = [], date = d, body = txt,
      html_body = [], attachments = atts, flags = [], size_bytes = sz, thread_id = None,
      reply_to = None, cc = [], bcc = []\<rparr>"

text \<open>A message and a reply to it that has no date.\<close>

definition undated_reply :: "email_message list" where
  "undated_reply =
     [message (Some ''Hello'') (Some ''a@x.com'') (Some (Datetime 2024 1 1 9 0 0 0 None)) [] [] 500,
      message (Some ''Re: Hello'') (Some ''b@x.com'') None [] [] 2000]"

text \<open>A thread of two messages without dates, and a third message outside it.\<close>

definition undated_thread :: "email_message list" where
  "undated_thread =
     [message (Some ''Budget Q1'') (Some ''a@x.com'') None ''thanks'' [] 500,
      message (Some ''RE: budget q1'') (Some ''Bob <b@y.org>'') None [] [''report.v2.PDF''] 2000,
      message (Some ''Lunch'') (Some ''c@x.com'') (Some (Datetime 2024 1 2 12 0 0 0 None)) [] []
        50000]"

text \<open>One message with no subject, no sender, no date and an empty body.\<close>

definition bare_message :: "email_message list" where
  "bare_message = [message None None None [] [] 500]"

text \<open>Five messages at the hours 5, 6, 11 and 12 and without a date, with sizes at the
  borders of the size bands.\<close>

definition day_messages :: "email_message list" where
  "day_messages =
     [message None None (Some (Datetime 2024 1 1 5 0 0 0 None)) [] [] 1023,
      message None None (Some (Datetime 2024 1 1 6 0 0 0 None)) [] [] 1024,
      message None None (Some (Datetime 2024 1 1 11 59 0 0 None)) [] [] 10240,
      message None None (Some (Datetime 2024 1 1 12 0 0 0 None)) [] [] 102400,
      message None None None [] [] 102399]"

text \<open>Three subjects of one thread and a message outside it.\<close>

definition budget_thread :: "email_message list" where
  "budget_thread =
     [message (Some ''Re: Budget Q1'') (Some ''a@x.com'') (Some (Datetime 2024 1 1 9 0 0 0 None)) [] []
        500,
      message (Some ''RE: budget q1'') (Some ''b@x.com'') (Some (Datetime 2024 1 1 15 0 0 0 None)) []
        [] 2000,
      message (Some ''Budget Q1'') (Some ''a@x.com'') (Some (Datetime 2024 1 2 9 0 0 0 None)) [] []
        50000,
      message (Some ''Lunch'') (Some ''c@x.com'') (Some (Datetime 2024 1 2 12 0 0 0 None)) [] [] 100]"

text \<open>A subject that is only a reply prefix, and an empty subject.\<close>

definition blank_subjects :: "email_message list" where
  "blank_subjects =
     [message (Some ''Re: '') None None [] [] 0, message (Some []) None None [] [] 0]"

text \<open>A subject with two stacked prefixes, and the bare subject.\<close>

definition stacked_subjects :: "email_message list" where
  "stacked_subjects =
     [message (Some ''Re: Fwd: Hello'') None None [] [] 0,
      message (Some ''Hello'') None None [] [] 0]"

text \<open>Two messages of different threads: one whose \<^verbatim>\<open>Date\<close> header was parsed into an
  offset-aware datetime (UTC), and one that got the offset-naive \<^verbatim>\<open>datetime.now()\<close>
  because its header could not be parsed.\<close>

definition mixed_zones :: "email_message list" where
  "mixed_zones =
     [message (Some ''Report'') (Some ''a@x.com'') (Some (Datetime 2024 1 1 9 0 0 0 (Some 0))) []
        [] 500,
      message (Some ''Lunch'') (Some ''b@x.com'') (Some (Datetime 2024 1 1 15 0 0 0 None)) [] []
        2000]"

section \<open>Notions used in the statements\<close>

text \<open>A list of dates that are all offset-naive or all offset-aware.\<close>

definition one_kind :: "datetime list \<Rightarrow> bool" where
  "one_kind dates =
     (list_all (\<lambda>d. utcoffset d = None) dates \<or> list_all (\<lambda>d. utcoffset d \<noteq> None) dates)"

text \<open>The entry of a \<^verbatim>\<open>defaultdict(int)\<close> for a key that was counted \<open>n\<close> times: a key
  that was never counted is absent.\<close>

definition entry :: "nat \<Rightarrow> nat option" where
  "entry n = (if n = 0 then None else Some n)"

text \<open>The count that a histogram holds for a band, 0 when the band is absent.\<close>

definition count_at :: "('k \<rightharpoonup> nat) \<Rightarrow> 'k \<Rightarrow> nat" where
  "count_at m k = (case m k of None \<Rightarrow> 0 | Some n \<Rightarrow> n)"

text \<open>The email has a date whose hour lies in \<open>[lo, hi)\<close>.\<close>

definition hour_between :: "int \<Rightarrow> int \<Rightarrow> email_message \<Rightarrow> bool" where
  "hour_between lo hi email =
     (case date email of None \<Rightarrow> False | Some d \<Rightarrow> lo \<le> hour d \<and> hour d < hi)"

text \<open>The hour of a Python \<^verbatim>\<open>datetime\<close> lies in \<open>[0, 24)\<close>.\<close>

definition valid_hour :: "email_message \<Rightarrow> bool" where
  "valid_hour email =
     (case date email of None \<Rightarrow> True | Some d \<Rightarrow> 0 \<le> hour d \<and> hour d < 24)"

text \<open>Following the spec's words for the thread key: a leading reply or forward prefix
  (\<^verbatim>\<open>Re:\<close>, \<^verbatim>\<open>Fwd:\<close> or \<^verbatim>\<open>FW:\<close>, in any case) is stripped together with the
  whitespace after it. \<open>has_prefix_ci p s\<close>: the text \<open>s\<close> begins with \<open>p\<close>, case
  ignored.\<close>

definition has_prefix_ci :: "string \<Rightarrow> string \<Rightarrow> bool" where
  "has_prefix_ci p s = (lower (take (length p) s) = lower p)"

definition strip_reply_prefix :: "string \<Rightarrow> string" where
  "strip_reply_prefix s =
     (if has_prefix_ci ''Re:'' s then dropWhile is_space (drop 3 s)
      else if has_prefix_ci ''Fwd:'' s then dropWhile is_space (drop 4 s)
      else if has_prefix_ci ''FW:'' s then dropWhile is_space (drop 3 s)
      else s)"

text \<open>A reply or forward prefix, in any case.\<close>

definition is_reply_prefix :: "string \<Rightarrow> bool" where
  "is_reply_prefix p = (lower p \<in> set [''re:'', ''fwd:'', ''fw:''])"

text \<open>The part of \<open>prefix_re\<close> after the alternatives.\<close>

definition colon_spaces_re :: re where
  "colon_spaces_re = Seq (Chr CHR '':'') (Seq (Star (Sym is_space)) Eps)"

text \<open>The key under which the grouping loop files an email: none for an email whose
  subject is absent or empty.\<close>

definition subject_key :: "email_message \<Rightarrow> string option" where
  "subject_key email =
     (case subject email of None \<Rightarrow> None | Some s \<Rightarrow> if s = [] then None else Some (thread_key s))"

section \<open>Exceptions\<close>

lemma py_error_eq: "(err :: py_error) = TypeError"
  by (cases err)

lemma analyze_emails_Inl:
  "(analyze_emails emails = Inl err) =
     (get_date_range emails = Inl err \<or> analyze_threads emails = Inl err \<or>
      analyze_response_times emails = Inl err)"
proof (cases "emails = []")
  case True
  then show ?thesis
    by (simp add: analyze_emails_def get_date_range_def analyze_threads_def
        analyze_response_times_def thread_groups_def)
next
  case False
  have e: "(x = err) = True" for x
    by (simp add: py_error_eq [of x] py_error_eq [of err])
  from False show ?thesis
    by (simp add: analyze_emails_def e split: sum.splits)
qed

lemma analyze_emails_Inr:
  "(analyze_emails emails = Inr b) =
     (if emails = [] then b = empty_results
      else \<exists>dates threads response_times.
             get_date_range emails = Inr dates \<and> analyze_threads emails = Inr threads \<and>
             analyze_response_times emails = Inr response_times \<and>
             b = \<lparr>total_emails = length emails,
                  date_range = dates,
                  total_size_mb = calculate_total_size emails,
                  top_senders = analyze_senders emails,
                  activity_by_time = analyze_time_activity emails,
                  activity_by_day = analyze_daily_activity emails,
                  activity_by_hour = analyze_hourly_activity emails,
                  subject_analysis = Dict (analyze_subjects emails),
                  attachment_analysis = Dict (analyze_attachments emails),
                  email_size_distribution = analyze_size_distribution emails,
                  thread_analysis = Dict threads,
                  domain_analysis = Dict (analyze_domains emails),
                  sentiment_analysis = Dict (analyze_sentiment emails),
                  keyword_analysis = Dict (analyze_keywords emails),
                  response_time_analysis = Dict response_times\<rparr>)"
proof (cases "emails = []")
  case True
  then show ?thesis
    by (auto simp: analyze_emails_def)
next
  case False
  then show ?thesis
    by (auto simp: analyze_emails_def split: sum.splits)
qed

text \<open>
  C1 (as amended). \<^verbatim>\<open>analyze_emails\<close> does not isolate its sub-statistics. An exception
  raised by a sub-statistic leaves the whole call: the call raises exactly when the date
  range, the thread analysis or the response-time analysis raises, and then no bundle is
  returned. The call returns a bundle exactly when none of them raises, and this bundle
  holds the value of every sub-statistic on the input; for the empty input it is the
  empty results.
\<close>

theorem exception_propagates:
  "(analyze_emails emails = Inl err) =
     (get_date_range emails = Inl err \<or> analyze_threads emails = Inl err \<or>
      analyze_response_times emails = Inl err) \<and>
   (analyze_emails emails = Inr b) =
     (if emails = [] then b = empty_results
      else \<exists>dates threads response_times.
             get_date_range emails = Inr dates \<and> analyze_threads emails = Inr threads \<and>
             analyze_response_times emails = Inr response_times \<and>
             b = \<lparr>total_emails = length emails,
                  date_range = dates,
                  total_size_mb = calculate_total_size emails,
                  top_senders = analyze_senders emails,
                  activity_by_time = analyze_time_activity emails,
                  activity_by_day = analyze_daily_activity emails,
                  activity_by_hour = analyze_hourly_activity emails,
                  subject_analysis = Dict (analyze_subjects emails),
                  attachment_analysis = Dict (analyze_attachments emails),
                  email_size_distribution = analyze_size_distribution emails,
                  thread_analysis = Dict threads,
                  domain_analysis = Dict (analyze_domains emails),
                  sentiment_analysis = Dict (analyze_sentiment emails),
                  keyword_analysis = Dict (analyze_keywords emails),
                  response_time_analysis = Dict response_times\<rparr>)"
  by (simp only: analyze_emails_Inl analyze_emails_Inr simp_thms)

text \<open>
  C1 (counterexample to the claim as stated). Of two messages of different threads, one
  has an offset-aware date and the other an offset-naive one. The date range raises
  \<^verbatim>\<open>TypeError\<close>; thread analysis and response-time analysis return their results; and
  the whole call raises \<^verbatim>\<open>TypeError\<close> instead of returning a bundle with an empty date
  range and the other sub-statistics.
\<close>

theorem mixed_dates_counterexample:
  "get_date_range mixed_zones = Inl TypeError \<and>
   analyze_threads mixed_zones =
     Inr \<lparr>total_threads = 0, largest_thread = None, avg_thread_size = 0, top_threads = []\<rparr> \<and>
   analyze_response_times mixed_zones =
     Inr \<lparr>avg_response_time_hours = 0, min_response_time_hours = 0,
          max_response_time_hours = 0, response_time_samples = 0\<rparr> \<and>
   analyze_emails mixed_zones = Inl TypeError"
proof -
  have d: "get_date_range mixed_zones = Inl TypeError"
    by code_simp
  have t: "analyze_threads mixed_zones =
     Inr \<lparr>total_threads = 0, largest_thread = None, avg_thread_size = 0, top_threads = []\<rparr>"
    by code_simp
  have r: "analyze_response_times mixed_zones =
     Inr \<lparr>avg_response_time_hours = 0, min_response_time_hours = 0,
          max_response_time_hours = 0, response_time_samples = 0\<rparr>"
    by code_simp
  from d have "analyze_emails mixed_zones = Inl TypeError"
    by (simp only: analyze_emails_Inl simp_thms)
  with d t r show ?thesis
    by simp
qed

text \<open>
  C2 (the code at the failing input). A message and its reply form a thread of two; the
  reply has no date, and \<^verbatim>\<open>analyze_emails\<close> raises \<^verbatim>\<open>TypeError\<close>.
\<close>

theorem missing_date_raises:
  "analyze_emails undated_reply = Inl TypeError"
proof -
  have "analyze_response_times undated_reply = Inl TypeError"
    by code_simp
  then show ?thesis
    by (simp only: analyze_emails_Inl simp_thms)
qed

text \<open>
  C4 (the code at the failing input). The input has three records, of 500, 2000 and
  50000 bytes; two of them have no date and form a thread. Their count is 3 and their
  total size is 52500 / 1048576 MB, but \<^verbatim>\<open>analyze_emails\<close> raises \<^verbatim>\<open>TypeError\<close>: no
  bundle is returned, and so no \<^verbatim>\<open>total_emails\<close> and no \<^verbatim>\<open>total_size_mb\<close>.
\<close>

theorem missing_dates_lose_totals:
  "length undated_thread = 3 \<and>
   calculate_total_size undated_thread = 52500 / 1048576 \<and>
   get_date_range undated_thread = Inr ''2024-01-02 to 2024-01-02'' \<and>
   analyze_response_times undated_thread = Inl TypeError \<and>
   analyze_emails undated_thread = Inl TypeError"
proof -
  have n: "length undated_thread = 3"
    by (simp add: undated_thread_def)
  have s: "calculate_total_size undated_thread = 52500 / 1048576"
    by (simp add: undated_thread_def message_def calculate_total_size_def true_div_def)
  have d: "get_date_range undated_thread = Inr ''2024-01-02 to 2024-01-02''"
    by code_simp
  have r: "analyze_response_times undated_thread = Inl TypeError"
    by code_simp
  then have "analyze_emails undated_thread = Inl TypeError"
    by (simp only: analyze_emails_Inl simp_thms)
  with n s d r show ?thesis
    by simp
qed

section \<open>The empty input\<close>

text \<open>
  C3 (as amended). For the empty input \<^verbatim>\<open>analyze_emails\<close> returns the empty results:
  \<^verbatim>\<open>total_emails\<close> is 0, \<^verbatim>\<open>date_range\<close> is \<^verbatim>\<open>"No emails"\<close>,
  \<^verbatim>\<open>total_size_mb\<close> is 0, \<^verbatim>\<open>top_senders\<close> is the empty list, and every other
  sub-statistic is the empty dictionary.
\<close>

theorem empty_input_bundle:
  "analyze_emails [] =
     Inr \<lparr>total_emails = 0, date_range = ''No emails'', total_size_mb = 0, top_senders = [],
          activity_by_time = Map.empty, activity_by_day = Map.empty,
          activity_by_hour = Map.empty, subject_analysis = Empty_dict,
          attachment_analysis = Empty_dict, email_size_distribution = Empty_dict,
          thread_analysis = Empty_dict, domain_analysis = Empty_dict,
          sentiment_analysis = Empty_dict, keyword_analysis = Empty_dict,
          response_time_analysis = Empty_dict\<rparr>"
  by (simp add: analyze_emails_def empty_results_def)

text \<open>
  C3 (counterexample to the claim as stated). The sentiment entry of the bundle for the
  empty input is the empty dictionary: it has no percentages, and it differs from the
  result of sentiment analysis on no emails, whose three percentages are 0.
\<close>

theorem empty_sentiment_counterexample:
  "analyze_emails [] = Inr empty_results \<and>
   sentiment_analysis empty_results = Empty_dict \<and>
   sentiment_analysis empty_results \<noteq> Dict (analyze_sentiment []) \<and>
   positive_percentage (analyze_sentiment []) = 0 \<and>
   negative_percentage (analyze_sentiment []) = 0 \<and>
   neutral_percentage (analyze_sentiment []) = 0"
  by (simp add: analyze_emails_def empty_results_def analyze_sentiment_def sentiment_loop_def
      percentage_def)

section \<open>Histograms of time of day and size\<close>

lemma map_of_counter_incr:
  "map_of (counter_incr k c) = (map_of c)(k \<mapsto> (case map_of c k of None \<Rightarrow> 1 | Some n \<Rightarrow> n + 1))"
  by (induction c) (auto simp: fun_eq_iff)

lemma map_of_fold_counter_incr:
  "map_of (fold (\<lambda>x. counter_incr (f x)) xs c) k =
     (if k \<in> f ` set xs
      then Some (count_at (map_of c) k + length (filter (\<lambda>x. f x = k) xs))
      else map_of c k)"
proof (induction xs arbitrary: c)
  case Nil
  then show ?case by simp
next
  case (Cons x xs)
  have "k \<notin> f ` set xs \<Longrightarrow> filter (\<lambda>x. f x = k) xs = []"
    by (auto simp: filter_empty_conv)
  then show ?case
    by (auto simp: Cons.IH map_of_counter_incr count_at_def split: option.splits)
qed

lemma fold_option_keys:
  "fold (\<lambda>x c. case g x of None \<Rightarrow> c | Some y \<Rightarrow> counter_incr (f y) c) xs c =
   fold (\<lambda>y. counter_incr (f y)) (List.map_filter g xs) c"
  by (induction xs arbitrary: c) (auto split: option.splits)

lemma length_filter_map_filter:
  "length (filter P (List.map_filter g xs)) =
   length (filter (\<lambda>x. case g x of None \<Rightarrow> False | Some y \<Rightarrow> P y) xs)"
  by (induction xs) (auto split: option.splits)

lemma time_activity_entry:
  "analyze_time_activity emails k =
     entry (length (filter (\<lambda>email. case date email of None \<Rightarrow> False
                                      | Some d \<Rightarrow> time_band (hour d) = k) emails))"
proof -
  have "k \<notin> (\<lambda>d. time_band (hour d)) ` set (List.map_filter date emails) \<Longrightarrow>
        filter (\<lambda>d. time_band (hour d) = k) (List.map_filter date emails) = []"
    by (auto simp: filter_empty_conv)
  moreover have "k \<in> (\<lambda>d. time_band (hour d)) ` set (List.map_filter date emails) \<Longrightarrow>
        filter (\<lambda>d. time_band (hour d) = k) (List.map_filter date emails) \<noteq> []"
    by (auto simp: filter_empty_conv)
  ultimately show ?thesis
    unfolding analyze_time_activity_def time_activity_def dict_of_def fold_option_keys
      map_of_fold_counter_incr length_filter_map_filter [symmetric]
    by (auto simp: entry_def count_at_def)
qed

lemma time_activity_dom:
  "dom (analyze_time_activity emails) \<subseteq>
     {''Morning (6-12)'', ''Afternoon (12-17)'', ''Evening (17-22)'', ''Night (22-6)''}"
proof
  fix k assume "k \<in> dom (analyze_time_activity emails)"
  then have "filter (\<lambda>email. case date email of None \<Rightarrow> False
                                    | Some d \<Rightarrow> time_band (hour d) = k) emails \<noteq> []"
    by (auto simp: time_activity_entry entry_def split: if_splits)
  then obtain d :: datetime where "time_band (hour d) = k"
    by (auto simp: filter_empty_conv split: option.splits)
  then show "k \<in> {''Morning (6-12)'', ''Afternoon (12-17)'', ''Evening (17-22)'', ''Night (22-6)''}"
    by (auto simp: time_band_def split: if_splits)
qed

lemma filter_cong_all:
  "list_all Q xs \<Longrightarrow> (\<And>x. Q x \<Longrightarrow> P x = P' x) \<Longrightarrow> filter P xs = filter P' xs"
  by (induction xs) auto

text \<open>
  C6. Every record with a timestamp is counted in exactly one of the four time-of-day
  bands, chosen by the hour of its date: Morning for the hours in \<open>[6, 12)\<close>, Afternoon for
  \<open>[12, 17)\<close>, Evening for \<open>[17, 22)\<close> and Night for \<open>[22, 24)\<close> and \<open>[0, 6)\<close>. The entry
  of a band is the number of such records (and is absent when there is none), and the
  histogram has no other keys. Hour 5 is Night, the hours 6 and 11 are Morning, and hour
  12 is Afternoon.
\<close>

theorem time_of_day_bands:
  "list_all valid_hour emails \<Longrightarrow>
   analyze_time_activity emails ''Morning (6-12)'' =
     entry (length (filter (hour_between 6 12) emails)) \<and>
   analyze_time_activity emails ''Afternoon (12-17)'' =
     entry (length (filter (hour_between 12 17) emails)) \<and>
   analyze_time_activity emails ''Evening (17-22)'' =
     entry (length (filter (hour_between 17 22) emails)) \<and>
   analyze_time_activity emails ''Night (22-6)'' =
     entry (length (filter (\<lambda>email. hour_between 22 24 email \<or> hour_between 0 6 email)
                      emails)) \<and>
   dom (analyze_time_activity emails) \<subseteq>
     {''Morning (6-12)'', ''Afternoon (12-17)'', ''Evening (17-22)'', ''Night (22-6)''} \<and>
   time_band 5 = ''Night (22-6)'' \<and> time_band 6 = ''Morning (6-12)'' \<and>
   time_band 11 = ''Morning (6-12)'' \<and> time_band 12 = ''Afternoon (12-17)''"
proof (intro conjI)
  assume valid: "list_all valid_hour emails"
  show "analyze_time_activity emails ''Morning (6-12)'' =
           entry (length (filter (hour_between 6 12) emails))"
    unfolding time_activity_entry
    by (rule arg_cong [where f = "\<lambda>xs. entry (length xs)"], rule filter_cong_all [OF valid])
      (auto simp: valid_hour_def hour_between_def time_band_def split: option.splits)
  show "analyze_time_activity emails ''Afternoon (12-17)'' =
           entry (length (filter (hour_between 12 17) emails))"
    unfolding time_activity_entry
    by (rule arg_cong [where f = "\<lambda>xs. entry (length xs)"], rule filter_cong_all [OF valid])
      (auto simp: valid_hour_def hour_between_def time_band_def split: option.splits)
  show "analyze_time_activity emails ''Evening (17-22)'' =
           entry (length (filter (hour_between 17 22) emails))"
    unfolding time_activity_entry
    by (rule arg_cong [where f = "\<lambda>xs. entry (length xs)"], rule filter_cong_all [OF valid])
      (auto simp: valid_hour_def hour_between_def time_band_def split: option.splits)
  show "analyze_time_activity emails ''Night (22-6)'' =
           entry (length (filter (\<lambda>email. hour_between 22 24 email \<or> hour_between 0 6 email)
                            emails))"
    unfolding time_activity_entry
    by (rule arg_cong [where f = "\<lambda>xs. entry (length xs)"], rule filter_cong_all [OF valid])
      (auto simp: valid_hour_def hour_between_def time_band_def split: option.splits)
  show "dom (analyze_time_activity emails) \<subseteq>
           {''Morning (6-12)'', ''Afternoon (12-17)'', ''Evening (17-22)'', ''Night (22-6)''}"
    by (rule time_activity_dom)
qed (simp_all add: time_band_def)

theorem time_of_day_bands_witness:
  "list_all valid_hour day_messages \<and>
   analyze_time_activity day_messages ''Night (22-6)'' = Some 1 \<and>
   analyze_time_activity day_messages ''Morning (6-12)'' = Some 2 \<and>
   analyze_time_activity day_messages ''Afternoon (12-17)'' = Some 1 \<and>
   analyze_time_activity day_messages ''Evening (17-22)'' = None"
proof -
  have valid: "list_all valid_hour day_messages"
    by (simp add: day_messages_def message_def valid_hour_def)
  from time_of_day_bands [OF valid] valid show ?thesis
    by (simp add: day_messages_def message_def hour_between_def entry_def)
qed

lemma size_band_cases:
  "size_band sz \<in> {''Small (< 1KB)'', ''Medium (1KB - 10KB)'', ''Large (10KB - 100KB)'',
                    ''Very Large (> 100KB)''}"
  by (simp add: size_band_def)

lemma size_ranges_loop_entry:
  "map_of (size_ranges_loop sizes) k =
     (if k \<in> {''Small (< 1KB)'', ''Medium (1KB - 10KB)'', ''Large (10KB - 100KB)'',
               ''Very Large (> 100KB)''}
      then Some (length (filter (\<lambda>sz. size_band sz = k) sizes)) else None)"
proof -
  have none: "k \<notin> size_band ` set sizes \<Longrightarrow> filter (\<lambda>sz. size_band sz = k) sizes = []"
    by (auto simp: filter_empty_conv)
  have "k \<in> size_band ` set sizes \<Longrightarrow>
        k \<in> {''Small (< 1KB)'', ''Medium (1KB - 10KB)'', ''Large (10KB - 100KB)'',
               ''Very Large (> 100KB)''}"
    using size_band_cases by blast
  then show ?thesis
    unfolding size_ranges_loop_def map_of_fold_counter_incr
    using none by (auto simp: size_ranges_init_def count_at_def)
qed

text \<open>
  C7. For a non-empty input, the size distribution counts every record in exactly one
  of four bands by its size: Small below 1024, Medium for \<open>[1024, 10240)\<close>, Large for
  \<open>[10240, 102400)\<close> and Very Large from 102400 on; the histogram has exactly these four
  keys. Size 1024 is Medium and size 102400 is Very Large.
\<close>

theorem size_bands:
  "emails \<noteq> [] \<Longrightarrow>
   (\<exists>r. analyze_size_distribution emails = Dict r \<and>
        size_ranges r ''Small (< 1KB)'' =
          Some (length (filter (\<lambda>email. size_bytes email < 1024) emails)) \<and>
        size_ranges r ''Medium (1KB - 10KB)'' =
          Some (length (filter (\<lambda>email. 1024 \<le> size_bytes email \<and> size_bytes email < 10240)
                          emails)) \<and>
        size_ranges r ''Large (10KB - 100KB)'' =
          Some (length (filter (\<lambda>email. 10240 \<le> size_bytes email \<and> size_bytes email < 102400)
                          emails)) \<and>
        size_ranges r ''Very Large (> 100KB)'' =
          Some (length (filter (\<lambda>email. 102400 \<le> size_bytes email) emails)) \<and>
        dom (size_ranges r) =
          {''Small (< 1KB)'', ''Medium (1KB - 10KB)'', ''Large (10KB - 100KB)'',
           ''Very Large (> 100KB)''}) \<and>
   size_band 1023 = ''Small (< 1KB)'' \<and> size_band 1024 = ''Medium (1KB - 10KB)'' \<and>
   size_band 102399 = ''Large (10KB - 100KB)'' \<and> size_band 102400 = ''Very Large (> 100KB)''"
proof (intro conjI)
  assume nonempty: "emails \<noteq> []"
  define r where "r = \<lparr>size_ranges = dict_of (size_ranges_loop (map size_bytes emails)),
                    avg_size = true_div (sum_list (map size_bytes emails)) (int (length (map size_bytes emails))),
                    max_size = py_max (map size_bytes emails),
                    min_size = py_min (map size_bytes emails)\<rparr>"
  have r: "analyze_size_distribution emails = Dict r"
    using nonempty by (simp add: analyze_size_distribution_def r_def Let_def)
  have entry: "size_ranges r k =
     (if k \<in> {''Small (< 1KB)'', ''Medium (1KB - 10KB)'', ''Large (10KB - 100KB)'',
               ''Very Large (> 100KB)''}
      then Some (length (filter (\<lambda>email. size_band (size_bytes email) = k) emails)) else None)"
    for k
    by (simp only: r_def size_stats.simps dict_of_def size_ranges_loop_entry length_filter_map
        comp_def)
  have small: "(size_band sz = ''Small (< 1KB)'') = (sz < 1024)" for sz
    by (simp add: size_band_def)
  have medium: "(size_band sz = ''Medium (1KB - 10KB)'') = (1024 \<le> sz \<and> sz < 10240)" for sz
    by (auto simp: size_band_def)
  have large: "(size_band sz = ''Large (10KB - 100KB)'') = (10240 \<le> sz \<and> sz < 102400)" for sz
    by (auto simp: size_band_def)
  have very: "(size_band sz = ''Very Large (> 100KB)'') = (102400 \<le> sz)" for sz
    by (auto simp: size_band_def)
  have "dom (size_ranges r) =
          {''Small (< 1KB)'', ''Medium (1KB - 10KB)'', ''Large (10KB - 100KB)'',
           ''Very Large (> 100KB)''}"
    unfolding dom_def entry by auto
  then show "\<exists>r. analyze_size_distribution emails = Dict r \<and>
        size_ranges r ''Small (< 1KB)'' =
          Some (length (filter (\<lambda>email. size_bytes email < 1024) emails)) \<and>
        size_ranges r ''Medium (1KB - 10KB)'' =
          Some (length (filter (\<lambda>email. 1024 \<le> size_bytes email \<and> size_bytes email < 10240)
                          emails)) \<and>
        size_ranges r ''Large (10KB - 100KB)'' =
          Some (length (filter (\<lambda>email. 10240 \<le> size_bytes email \<and> size_bytes email < 102400)
                          emails)) \<and>
        size_ranges r ''Very Large (> 100KB)'' =
          Some (length (filter (\<lambda>email. 102400 \<le> size_bytes email) emails)) \<and>
        dom (size_ranges r) =
          {''Small (< 1KB)'', ''Medium (1KB - 10KB)'', ''Large (10KB - 100KB)'',
           ''Very Large (> 100KB)''}"
    using r by (intro exI [of _ r]) (simp add: entry small medium large very)
qed (simp_all add: size_band_def)

theorem size_bands_witness:
  "day_messages \<noteq> [] \<and>
   (\<exists>r. analyze_size_distribution day_messages = Dict r \<and>
        size_ranges r ''Small (< 1KB)'' = Some 1 \<and>
        size_ranges r ''Medium (1KB - 10KB)'' = Some 1 \<and>
        size_ranges r ''Large (10KB - 100KB)'' = Some 2 \<and>
        size_ranges r ''Very Large (> 100KB)'' = Some 1)"
proof -
  have nonempty: "day_messages \<noteq> []"
    by (simp add: day_messages_def)
  have small: "length (filter (\<lambda>email. size_bytes email < 1024) day_messages) = 1"
    by (simp add: day_messages_def message_def)
  have medium: "length (filter (\<lambda>email. 1024 \<le> size_bytes email \<and> size_bytes email < 10240)
                          day_messages) = 1"
    by (simp add: day_messages_def message_def)
  have large: "length (filter (\<lambda>email. 10240 \<le> size_bytes email \<and> size_bytes email < 102400)
                          day_messages) = 2"
    by (simp add: day_messages_def message_def)
  have very: "length (filter (\<lambda>email. 102400 \<le> size_bytes email) day_messages) = 1"
    by (simp add: day_messages_def message_def)
  from size_bands [OF nonempty] show ?thesis
    unfolding small medium large very using nonempty by blast
qed

lemma count_at_time_activity:
  "count_at (analyze_time_activity emails) k =
     length (filter (\<lambda>email. case date email of None \<Rightarrow> False
                              | Some d \<Rightarrow> time_band (hour d) = k) emails)"
  by (simp add: count_at_def time_activity_entry entry_def)

lemma time_bands_partition:
  "length (filter (\<lambda>email. case date email of None \<Rightarrow> False
                              | Some d \<Rightarrow> time_band (hour d) = ''Morning (6-12)'') emails) +
   length (filter (\<lambda>email. case date email of None \<Rightarrow> False
                              | Some d \<Rightarrow> time_band (hour d) = ''Afternoon (12-17)'') emails) +
   length (filter (\<lambda>email. case date email of None \<Rightarrow> False
                              | Some d \<Rightarrow> time_band (hour d) = ''Evening (17-22)'') emails) +
   length (filter (\<lambda>email. case date email of None \<Rightarrow> False
                              | Some d \<Rightarrow> time_band (hour d) = ''Night (22-6)'') emails) =
   length (filter (\<lambda>email. date email \<noteq> None) emails)"
proof (induction emails)
  case Nil
  then show ?case by simp
next
  case (Cons e emails)
  show ?case
  proof (cases "date e")
    case None
    with Cons.IH show ?thesis by simp
  next
    case (Some d)
    have "time_band (hour d) = ''Morning (6-12)'' \<or> time_band (hour d) = ''Afternoon (12-17)'' \<or>
          time_band (hour d) = ''Evening (17-22)'' \<or> time_band (hour d) = ''Night (22-6)''"
      by (simp add: time_band_def)
    then show ?thesis
      using Cons.IH Some by (elim disjE) simp_all
  qed
qed

lemma size_bands_partition:
  "length (filter (\<lambda>sz. size_band sz = ''Small (< 1KB)'') sizes) +
   length (filter (\<lambda>sz. size_band sz = ''Medium (1KB - 10KB)'') sizes) +
   length (filter (\<lambda>sz. size_band sz = ''Large (10KB - 100KB)'') sizes) +
   length (filter (\<lambda>sz. size_band sz = ''Very Large (> 100KB)'') sizes) =
   length sizes"
proof (induction sizes)
  case Nil
  then show ?case by simp
next
  case (Cons sz sizes)
  have "size_band sz = ''Small (< 1KB)'' \<or> size_band sz = ''Medium (1KB - 10KB)'' \<or>
        size_band sz = ''Large (10KB - 100KB)'' \<or> size_band sz = ''Very Large (> 100KB)''"
    by (simp add: size_band_def)
  then show ?case
    using Cons.IH by (elim disjE) simp_all
qed

lemma count_at_size_ranges:
  "count_at (dict_of (size_ranges_loop sizes)) ''Small (< 1KB)'' +
   count_at (dict_of (size_ranges_loop sizes)) ''Medium (1KB - 10KB)'' +
   count_at (dict_of (size_ranges_loop sizes)) ''Large (10KB - 100KB)'' +
   count_at (dict_of (size_ranges_loop sizes)) ''Very Large (> 100KB)'' =
   length sizes"
  using size_bands_partition [of sizes]
  by (simp add: count_at_def dict_of_def size_ranges_loop_entry)

text \<open>
  C9. For a non-empty input, the four counts of the size distribution sum to the number
  of records, which is \<^verbatim>\<open>total_emails\<close>, and the counts of the four time-of-day bands
  sum to the number of records that have a date. The same holds for the two histograms
  of the bundle whenever \<^verbatim>\<open>analyze_emails\<close> returns one.
\<close>

theorem band_counts_sum:
  "emails \<noteq> [] \<Longrightarrow>
   (\<exists>r. analyze_size_distribution emails = Dict r \<and>
        count_at (size_ranges r) ''Small (< 1KB)'' +
        count_at (size_ranges r) ''Medium (1KB - 10KB)'' +
        count_at (size_ranges r) ''Large (10KB - 100KB)'' +
        count_at (size_ranges r) ''Very Large (> 100KB)'' = length emails) \<and>
   count_at (analyze_time_activity emails) ''Morning (6-12)'' +
   count_at (analyze_time_activity emails) ''Afternoon (12-17)'' +
   count_at (analyze_time_activity emails) ''Evening (17-22)'' +
   count_at (analyze_time_activity emails) ''Night (22-6)'' =
     length (filter (\<lambda>email. date email \<noteq> None) emails) \<and>
   (\<forall>b. analyze_emails emails = Inr b \<longrightarrow>
      (\<exists>r. email_size_distribution b = Dict r \<and>
           count_at (size_ranges r) ''Small (< 1KB)'' +
           count_at (size_ranges r) ''Medium (1KB - 10KB)'' +
           count_at (size_ranges r) ''Large (10KB - 100KB)'' +
           count_at (size_ranges r) ''Very Large (> 100KB)'' = total_emails b) \<and>
      count_at (activity_by_time b) ''Morning (6-12)'' +
      count_at (activity_by_time b) ''Afternoon (12-17)'' +
      count_at (activity_by_time b) ''Evening (17-22)'' +
      count_at (activity_by_time b) ''Night (22-6)'' =
        length (filter (\<lambda>email. date email \<noteq> None) emails))"
proof -
  assume nonempty: "emails \<noteq> []"
  have sizes: "\<exists>r. analyze_size_distribution emails = Dict r \<and>
        count_at (size_ranges r) ''Small (< 1KB)'' +
        count_at (size_ranges r) ''Medium (1KB - 10KB)'' +
        count_at (size_ranges r) ''Large (10KB - 100KB)'' +
        count_at (size_ranges r) ''Very Large (> 100KB)'' = length emails"
    using nonempty count_at_size_ranges [of "map size_bytes emails"]
    by (simp add: analyze_size_distribution_def Let_def)
  have times: "count_at (analyze_time_activity emails) ''Morning (6-12)'' +
   count_at (analyze_time_activity emails) ''Afternoon (12-17)'' +
   count_at (analyze_time_activity emails) ''Evening (17-22)'' +
   count_at (analyze_time_activity emails) ''Night (22-6)'' =
     length (filter (\<lambda>email. date email \<noteq> None) emails)"
    unfolding count_at_time_activity by (rule time_bands_partition)
  have "email_size_distribution b = analyze_size_distribution emails \<and>
        activity_by_time b = analyze_time_activity emails \<and> total_emails b = length emails"
    if "analyze_emails emails = Inr b" for b
    using that nonempty by (auto simp: analyze_emails_def split: sum.splits)
  with sizes times show ?thesis
    by simp
qed

theorem band_counts_sum_witness:
  "day_messages \<noteq> [] \<and>
   (\<exists>r. analyze_size_distribution day_messages = Dict r \<and>
        count_at (size_ranges r) ''Small (< 1KB)'' +
        count_at (size_ranges r) ''Medium (1KB - 10KB)'' +
        count_at (size_ranges r) ''Large (10KB - 100KB)'' +
        count_at (size_ranges r) ''Very Large (> 100KB)'' = 5) \<and>
   count_at (analyze_time_activity day_messages) ''Morning (6-12)'' +
   count_at (analyze_time_activity day_messages) ''Afternoon (12-17)'' +
   count_at (analyze_time_activity day_messages) ''Evening (17-22)'' +
   count_at (analyze_time_activity day_messages) ''Night (22-6)'' = 4"
proof -
  have nonempty: "day_messages \<noteq> []"
    by (simp add: day_messages_def)
  have len: "length day_messages = 5"
    by (simp add: day_messages_def)
  have dated: "length (filter (\<lambda>email. date email \<noteq> None) day_messages) = 4"
    by (simp add: day_messages_def message_def)
  from band_counts_sum [OF nonempty] show ?thesis
    unfolding len dated using nonempty by blast
qed

section \<open>Thread keys and thread groups\<close>

lemmas letters_defs =
  upper_letters_def lower_letters_def ascii_upper_def ascii_lower_def latin_upper_def
  latin_lower_def

lemma lower_char_lower_letters:
  "lower_char x \<noteq> x \<Longrightarrow> lower_char x \<in> set lower_letters"
proof -
  assume "lower_char x \<noteq> x"
  then obtain d where d: "map_of (zip upper_letters lower_letters) x = Some d" "lower_char x = d"
    by (auto simp: lower_char_def split: option.splits)
  from d(1) have "d \<in> set lower_letters"
    by (meson in_set_zipE map_of_SomeD)
  with d(2) show ?thesis by simp
qed

lemma lower_char_colon: "(lower_char x = CHR '':'') = (x = CHR '':'')"
proof
  assume "lower_char x = CHR '':''"
  then show "x = CHR '':''"
    using lower_char_lower_letters [of x] by (auto simp: letters_defs)
next
  assume "x = CHR '':''"
  then show "lower_char x = CHR '':''"
    by (simp add: lower_char_def letters_defs)
qed

lemma Lit_ci_simps:
  "Lit_ci [] = Eps" "Lit_ci (c # w) = Seq (Chr_ci c) (Lit_ci w)"
  by (simp_all add: Lit_ci_def Seqs_def)

lemma bt_Lit_ci:
  "bt (Lit_ci w) (l, s) =
     (if has_prefix_ci w s then [(rev (take (length w) s) @ l, drop (length w) s)] else [])"
proof (induction w arbitrary: l s)
  case Nil
  then show ?case
    by (simp add: Lit_ci_simps has_prefix_ci_def)
next
  case (Cons c w)
  show ?case
  proof (cases s)
    case Nil
    then show ?thesis
      by (simp add: Lit_ci_simps Chr_ci_def has_prefix_ci_def lower_def)
  next
    case (Cons x xs)
    then show ?thesis
      by (simp add: Lit_ci_simps Chr_ci_def Cons.IH has_prefix_ci_def lower_def)
  qed
qed

lemma bt_Star_Sym_head:
  "\<exists>rest. bt (Star (Sym P)) (l, s) = (rev (takeWhile P s) @ l, dropWhile P s) # rest"
proof (induction s arbitrary: l)
  case Nil
  then show ?case by simp
next
  case (Cons x xs)
  show ?case
  proof (cases "P x")
    case True
    from Cons.IH [of "x # l"] obtain rest where
      "bt (Star (Sym P)) (x # l, xs) = (rev (takeWhile P xs) @ x # l, dropWhile P xs) # rest"
      by blast
    with True show ?thesis by simp
  next
    case False
    then show ?thesis by simp
  qed
qed

lemma concat_map_singleton: "concat (map (\<lambda>q. [q]) xs) = xs"
  by (induction xs) auto

lemma bt_Eps_fun: "bt Eps = (\<lambda>q. [q])"
  by (rule ext) simp

lemma bt_colon_spaces:
  "bt colon_spaces_re (l, s) =
     (case s of [] \<Rightarrow> [] | x # xs \<Rightarrow> if x = CHR '':'' then bt (Star (Sym is_space)) (x # l, xs) else [])"
  by (cases s)
    (simp_all add: colon_spaces_re_def Chr_def bt_Eps_fun concat_map_singleton del: bt.simps(5))

lemma drop_eq_Cons:
  "drop n s = x # xs \<Longrightarrow> take (Suc n) s = take n s @ [x] \<and> drop (Suc n) s = xs"
proof -
  assume d: "drop n s = x # xs"
  then have n: "n < length s"
    by (cases "n < length s") simp_all
  from Cons_nth_drop_Suc [OF n] d have "s ! n = x" "drop (Suc n) s = xs"
    by simp_all
  with take_Suc_conv_app_nth [OF n] show ?thesis
    by simp
qed

lemma has_prefix_ci_append:
  "has_prefix_ci (w @ [c]) s =
     (has_prefix_ci w s \<and> (case drop (length w) s of [] \<Rightarrow> False | x # xs \<Rightarrow> lower_char x = lower_char c))"
proof (cases "drop (length w) s")
  case Nil
  then have "length s \<le> length w" by simp
  then have "length (lower (take (length (w @ [c])) s)) \<noteq> length (lower (w @ [c]))"
    by (simp add: lower_def)
  then have "\<not> has_prefix_ci (w @ [c]) s"
    unfolding has_prefix_ci_def by metis
  with Nil show ?thesis by simp
next
  case (Cons x xs)
  from drop_eq_Cons [OF Cons] have t: "take (Suc (length w)) s = take (length w) s @ [x]"
    by simp
  have "length (take (length w) s) = length w"
    using Cons by (cases "length w < length s") simp_all
  then show ?thesis
    using Cons by (simp add: has_prefix_ci_def t lower_def)
qed

lemma bt_word_colon_spaces:
  "concat (map (bt colon_spaces_re) (bt (Lit_ci w) ([], s))) =
     (if has_prefix_ci (w @ '':'') s
      then bt (Star (Sym is_space)) (rev (take (Suc (length w)) s), drop (Suc (length w)) s)
      else [])"
proof (cases "drop (length w) s")
  case Nil
  then show ?thesis
    by (simp add: bt_Lit_ci bt_colon_spaces has_prefix_ci_append)
next
  case (Cons x xs)
  from drop_eq_Cons [OF Cons] Cons show ?thesis
    by (simp add: bt_Lit_ci bt_colon_spaces has_prefix_ci_append lower_char_colon
        lower_char_colon [of "CHR '':''", simplified] del: bt.simps(5))
qed


lemma bt_Bol_left: "l \<noteq> [] \<Longrightarrow> bt prefix_re (l, r) = []"
  by (simp add: prefix_re_def Seqs_def)

lemma sub_from_left: "l \<noteq> [] \<Longrightarrow> sub_from prefix_re l r = r"
  by (induction r arbitrary: l) (simp_all add: bt_Bol_left)

lemma bt_prefix_re:
  "bt prefix_re ([], s) =
     concat (map (\<lambda>w. if has_prefix_ci (w @ '':'') s
                       then bt (Star (Sym is_space))
                              (rev (take (Suc (length w)) s), drop (Suc (length w)) s)
                       else [])
               [''Re'', ''Fwd'', ''FW'', ''RE'', ''FW''])"
proof -
  have "bt prefix_re ([], s) =
     concat (map (\<lambda>w. concat (map (bt colon_spaces_re) (bt (Lit_ci w) ([], s))))
               [''Re'', ''Fwd'', ''FW'', ''RE'', ''FW''])"
    by (simp add: prefix_re_def Seqs_def colon_spaces_re_def del: bt.simps(3,5))
      (simp del: bt.simps(5))
  then show ?thesis
    by (simp only: bt_word_colon_spaces)
qed


lemma has_prefix_ci_upper:
  "has_prefix_ci ''RE:'' s = has_prefix_ci ''Re:'' s"
  by (simp add: has_prefix_ci_def lower_def lower_char_def letters_defs)

lemma has_prefix_ci_Nil: "w \<noteq> [] \<Longrightarrow> \<not> has_prefix_ci w []"
  by (simp add: has_prefix_ci_def lower_def)

lemma bt_prefix_re_match:
  "has_prefix_ci ''Re:'' s \<or> has_prefix_ci ''Fwd:'' s \<or> has_prefix_ci ''FW:'' s \<Longrightarrow>
   \<exists>l rest. l \<noteq> [] \<and> bt prefix_re ([], s) = (l, strip_reply_prefix s) # rest"
proof -
  assume some: "has_prefix_ci ''Re:'' s \<or> has_prefix_ci ''Fwd:'' s \<or> has_prefix_ci ''FW:'' s"
  then have s: "s \<noteq> []"
    using has_prefix_ci_Nil by auto
  define T where "T = (\<lambda>w. if has_prefix_ci (w @ '':'') s
                       then bt (Star (Sym is_space))
                              (rev (take (Suc (length w)) s), drop (Suc (length w)) s)
                       else [])"
  have bt: "bt prefix_re ([], s) = T ''Re'' @ T ''Fwd'' @ T ''FW'' @ T ''RE'' @ T ''FW''"
    by (simp only: bt_prefix_re T_def list.map concat.simps append_Nil2)
  have no: "T w = []" if "\<not> has_prefix_ci (w @ '':'') s" for w
    using that by (simp add: T_def)
  have match: "\<exists>l rest. l \<noteq> [] \<and>
      T w @ more = (l, dropWhile is_space (drop (Suc (length w)) s)) # rest"
    if "has_prefix_ci (w @ '':'') s" for w more
  proof -
    from bt_Star_Sym_head [of is_space "rev (take (Suc (length w)) s)" "drop (Suc (length w)) s"]
    obtain rest where "bt (Star (Sym is_space))
          (rev (take (Suc (length w)) s), drop (Suc (length w)) s) =
        (rev (takeWhile is_space (drop (Suc (length w)) s)) @ rev (take (Suc (length w)) s),
         dropWhile is_space (drop (Suc (length w)) s)) # rest"
      by blast
    with that have "T w =
        (rev (takeWhile is_space (drop (Suc (length w)) s)) @ rev (take (Suc (length w)) s),
         dropWhile is_space (drop (Suc (length w)) s)) # rest"
      by (simp only: T_def if_True)
    moreover have
      "rev (takeWhile is_space (drop (Suc (length w)) s)) @ rev (take (Suc (length w)) s) \<noteq> []"
      using s by simp
    ultimately show ?thesis
      by (metis append_Cons)
  qed
  show ?thesis
  proof (cases "has_prefix_ci ''Re:'' s")
    case True
    then have "strip_reply_prefix s = dropWhile is_space (drop (Suc (length ''Re'')) s)"
      by (simp add: strip_reply_prefix_def eval_nat_numeral)
    with match [of "''Re''"] True show ?thesis
      unfolding bt by simp
  next
    case re: False
    then have re': "T ''Re'' = []"
      by (simp add: no)
    show ?thesis
    proof (cases "has_prefix_ci ''Fwd:'' s")
      case True
      with re have "strip_reply_prefix s = dropWhile is_space (drop (Suc (length ''Fwd'')) s)"
        by (simp add: strip_reply_prefix_def eval_nat_numeral)
      with match [of "''Fwd''"] True show ?thesis
        unfolding bt re' by simp
    next
      case False
      then have fwd': "T ''Fwd'' = []"
        by (simp add: no)
      from re False some have fw: "has_prefix_ci ''FW:'' s" by simp
      with re False have "strip_reply_prefix s = dropWhile is_space (drop (Suc (length ''FW'')) s)"
        by (simp add: strip_reply_prefix_def eval_nat_numeral)
      with match [of "''FW''"] fw show ?thesis
        unfolding bt re' fwd' by simp
    qed
  qed
qed

lemma bt_prefix_re_no_match:
  "\<not> has_prefix_ci ''Re:'' s \<Longrightarrow> \<not> has_prefix_ci ''Fwd:'' s \<Longrightarrow> \<not> has_prefix_ci ''FW:'' s \<Longrightarrow>
   bt prefix_re ([], s) = []"
  by (simp add: bt_prefix_re has_prefix_ci_upper del: bt.simps(5))

lemma length_strip_reply_prefix: "length (strip_reply_prefix s) \<le> length s"
proof -
  have "length (dropWhile is_space (drop n s)) \<le> length s" for n
    using length_dropWhile_le [of is_space "drop n s"] by simp
  then show ?thesis
    by (simp add: strip_reply_prefix_def)
qed

lemma length_strip_reply_prefix_less:
  "has_prefix_ci ''Re:'' s \<or> has_prefix_ci ''Fwd:'' s \<or> has_prefix_ci ''FW:'' s \<Longrightarrow>
   length (strip_reply_prefix s) < length s"
proof -
  assume some: "has_prefix_ci ''Re:'' s \<or> has_prefix_ci ''Fwd:'' s \<or> has_prefix_ci ''FW:'' s"
  then have s: "s \<noteq> []"
    using has_prefix_ci_Nil by auto
  have "length (dropWhile is_space (drop (Suc n) s)) < length s" for n
    using length_dropWhile_le [of is_space "drop (Suc n) s"] s by (cases s) simp_all
  from this [of 2] this [of 3] some show ?thesis
    by (auto simp: strip_reply_prefix_def eval_nat_numeral)
qed

lemma clean_subject_strip: "clean_subject s = strip_reply_prefix s"
proof (cases s)
  case Nil
  then show ?thesis
    by (simp add: clean_subject_def re_sub_empty_def strip_reply_prefix_def has_prefix_ci_Nil)
next
  case (Cons c cs)
  show ?thesis
  proof (cases "has_prefix_ci ''Re:'' s \<or> has_prefix_ci ''Fwd:'' s \<or> has_prefix_ci ''FW:'' s")
    case True
    from bt_prefix_re_match [OF True] obtain l rest where
      l: "l \<noteq> []" "bt prefix_re ([], s) = (l, strip_reply_prefix s) # rest"
      by blast
    with length_strip_reply_prefix_less [OF True] show ?thesis
      unfolding clean_subject_def re_sub_empty_def Cons
      by (simp add: sub_from_left)
  next
    case False
    then have "bt prefix_re ([], s) = []" "strip_reply_prefix s = s"
      by (simp_all add: bt_prefix_re_no_match strip_reply_prefix_def)
    then show ?thesis
      unfolding clean_subject_def re_sub_empty_def Cons
      by (simp add: sub_from_left)
  qed
qed

lemma thread_key_strip: "thread_key s = lower (strip_reply_prefix s)"
  by (simp add: thread_key_def clean_subject_strip)

lemma group_step_key:
  "group_step email groups =
     (case subject_key email of None \<Rightarrow> groups | Some k \<Rightarrow> group_append k email groups)"
  by (simp add: group_step_def subject_key_def split: option.splits)

lemma keys_group_append:
  "map fst (group_append k v g) =
     (if k \<in> fst ` set g then map fst g else map fst g @ [k])"
proof (induction g)
  case Nil
  then show ?case by simp
next
  case (Cons a g)
  then show ?case
    by (cases a) force
qed

lemma distinct_group_append:
  "distinct (map fst g) \<Longrightarrow> distinct (map fst (group_append k v g))"
  by (simp add: keys_group_append)

lemma map_of_group_append:
  "map_of (group_append k v g) =
     (map_of g)(k \<mapsto> (case map_of g k of None \<Rightarrow> [v] | Some vs \<Rightarrow> vs @ [v]))"
  by (induction g) (auto simp: fun_eq_iff)

lemma distinct_group_step:
  "distinct (map fst g) \<Longrightarrow> distinct (map fst (group_step e g))"
  by (simp add: group_step_key distinct_group_append split: option.splits)

lemma distinct_fold_group_step:
  "distinct (map fst g) \<Longrightarrow> distinct (map fst (fold group_step emails g))"
  by (induction emails arbitrary: g) (simp_all add: distinct_group_step)

lemma map_of_group_step:
  "map_of (group_step e g) k =
     (if subject_key e = Some k
      then Some ((case map_of g k of None \<Rightarrow> [] | Some vs \<Rightarrow> vs) @ [e])
      else map_of g k)"
  by (cases "subject_key e")
    (auto simp: group_step_key map_of_group_append split: option.splits)

lemma map_of_fold_group_step:
  "map_of (fold group_step emails g) k =
     (if filter (\<lambda>e. subject_key e = Some k) emails = [] then map_of g k
      else Some ((case map_of g k of None \<Rightarrow> [] | Some vs \<Rightarrow> vs)
                 @ filter (\<lambda>e. subject_key e = Some k) emails))"
proof (induction emails arbitrary: g)
  case Nil
  then show ?case by simp
next
  case (Cons e emails)
  have "map_of (fold group_step (e # emails) g) k =
        map_of (fold group_step emails (group_step e g)) k"
    by simp
  also have "\<dots> =
     (if filter (\<lambda>e. subject_key e = Some k) emails = [] then map_of (group_step e g) k
      else Some ((case map_of (group_step e g) k of None \<Rightarrow> [] | Some vs \<Rightarrow> vs)
                 @ filter (\<lambda>e. subject_key e = Some k) emails))"
    by (rule Cons.IH)
  also have "\<dots> =
     (if filter (\<lambda>e. subject_key e = Some k) (e # emails) = [] then map_of g k
      else Some ((case map_of g k of None \<Rightarrow> [] | Some vs \<Rightarrow> vs)
                 @ filter (\<lambda>e. subject_key e = Some k) (e # emails)))"
    by (simp add: map_of_group_step split: option.splits)
  finally show ?case .
qed

lemma distinct_thread_groups: "distinct (map fst (thread_groups emails))"
  by (simp add: thread_groups_def distinct_fold_group_step)

lemma thread_groups_member:
  "((k, g) \<in> set (thread_groups emails)) =
     (g = filter (\<lambda>e. subject_key e = Some k) emails \<and> g \<noteq> [])"
proof -
  have "((k, g) \<in> set (thread_groups emails)) = (map_of (thread_groups emails) k = Some g)"
    using distinct_thread_groups [of emails] by simp
  then show ?thesis
    by (auto simp: thread_groups_def map_of_fold_group_step)
qed

lemma dt_sub_Inl:
  "(dt_sub a b = Inl TypeError) = ((utcoffset a = None) \<noteq> (utcoffset b = None))"
  by (cases "utcoffset a"; cases "utcoffset b") (simp_all add: dt_sub_def Let_def)

lemma dt_lt_Inl:
  "(dt_lt a b = Inl TypeError) = ((utcoffset a = None) \<noteq> (utcoffset b = None))"
  using dt_sub_Inl [of a b]
  by (cases "dt_sub a b") (auto simp: dt_lt_def py_error_eq)

lemma dt_gt_Inl:
  "(dt_gt a b = Inl TypeError) = ((utcoffset a = None) \<noteq> (utcoffset b = None))"
  using dt_sub_Inl [of a b]
  by (cases "dt_sub a b") (auto simp: dt_gt_def py_error_eq)

lemma min_loop_Inl:
  "(min_loop m xs = Inl TypeError) =
     (\<not> list_all (\<lambda>x. (utcoffset x = None) = (utcoffset m = None)) xs)"
proof (induction xs arbitrary: m)
  case Nil
  then show ?case by simp
next
  case (Cons x xs)
  show ?case
  proof (cases "dt_lt x m")
    case (Inl err)
    then have e: "dt_lt x m = Inl TypeError"
      by (simp add: py_error_eq [of err])
    from iffD1 [OF dt_lt_Inl e] have "(utcoffset x = None) \<noteq> (utcoffset m = None)" .
    with e show ?thesis
      by simp
  next
    case (Inr lt)
    then have "dt_lt x m \<noteq> Inl TypeError"
      by simp
    with dt_lt_Inl [of x m] have same: "(utcoffset x = None) = (utcoffset m = None)"
      by auto
    with Inr Cons.IH [of "if lt then x else m"] show ?thesis
      by simp
  qed
qed

lemma max_loop_Inl:
  "(max_loop m xs = Inl TypeError) =
     (\<not> list_all (\<lambda>x. (utcoffset x = None) = (utcoffset m = None)) xs)"
proof (induction xs arbitrary: m)
  case Nil
  then show ?case by simp
next
  case (Cons x xs)
  show ?case
  proof (cases "dt_gt x m")
    case (Inl err)
    then have e: "dt_gt x m = Inl TypeError"
      by (simp add: py_error_eq [of err])
    from iffD1 [OF dt_gt_Inl e] have "(utcoffset x = None) \<noteq> (utcoffset m = None)" .
    with e show ?thesis
      by simp
  next
    case (Inr gt)
    then have "dt_gt x m \<noteq> Inl TypeError"
      by simp
    with dt_gt_Inl [of x m] have same: "(utcoffset x = None) = (utcoffset m = None)"
      by auto
    with Inr Cons.IH [of "if gt then x else m"] show ?thesis
      by simp
  qed
qed

lemma one_kind_Cons:
  "one_kind (d # ds) = list_all (\<lambda>x. (utcoffset x = None) = (utcoffset d = None)) ds"
  by (cases "utcoffset d") (auto simp: one_kind_def list_all_iff)

lemma get_date_range_Inl:
  "(get_date_range emails = Inl TypeError) = (\<not> one_kind (dates_of emails))"
proof (cases "dates_of emails")
  case Nil
  then show ?thesis
    by (simp add: get_date_range_def one_kind_def)
next
  case (Cons d ds)
  then have nonempty: "emails \<noteq> []"
    by (auto simp: dates_of_def)
  show ?thesis
  proof (cases "one_kind (dates_of emails)")
    case True
    then have "min_loop d ds \<noteq> Inl TypeError" "max_loop d ds \<noteq> Inl TypeError"
      by (simp_all add: Cons one_kind_Cons min_loop_Inl max_loop_Inl)
    then obtain lo hi where "min_loop d ds = Inr lo" "max_loop d ds = Inr hi"
      by (cases "min_loop d ds"; cases "max_loop d ds") (simp_all add: py_error_eq)
    with True nonempty Cons show ?thesis
      by (simp add: get_date_range_def min_dates_def max_dates_def)
  next
    case False
    then have "min_loop d ds = Inl TypeError"
      by (simp add: Cons one_kind_Cons min_loop_Inl)
    with False nonempty Cons show ?thesis
      by (simp add: get_date_range_def min_dates_def)
  qed
qed

lemma one_kind_short: "length emails \<le> 1 \<Longrightarrow> one_kind (dates_of emails)"
proof (cases emails)
  case Nil
  then show ?thesis
    by (simp add: dates_of_def one_kind_def)
next
  case (Cons e es)
  assume "length emails \<le> 1"
  with Cons have "emails = [e]"
    by simp
  then show ?thesis
    by (cases "date e") (auto simp: dates_of_def one_kind_def)
qed

lemma thread_stats_loop_Inl:
  "(thread_stats_loop groups stats = Inl TypeError) =
     (\<not> list_all (\<lambda>g. length (snd g) \<le> 1 \<or> one_kind (dates_of (snd g))) groups)"
proof (induction groups arbitrary: stats)
  case Nil
  then show ?case by simp
next
  case (Cons g groups)
  show ?case
  proof (cases "get_date_range (snd g)")
    case (Inl err)
    then have e: "get_date_range (snd g) = Inl TypeError"
      by (simp add: py_error_eq [of err])
    from iffD1 [OF get_date_range_Inl e] have k: "\<not> one_kind (dates_of (snd g))" .
    have "1 < length (snd g)"
    proof (rule ccontr)
      assume "\<not> 1 < length (snd g)"
      then have "length (snd g) \<le> 1"
        by simp
      from one_kind_short [OF this] k show False
        by simp
    qed
    with k e show ?thesis
      by simp
  next
    case (Inr dates)
    then have "get_date_range (snd g) \<noteq> Inl TypeError"
      by simp
    with get_date_range_Inl [of "snd g"] have "one_kind (dates_of (snd g))"
      by auto
    with Inr Cons.IH show ?thesis
      by simp
  qed
qed

lemma thread_stats_loop_Inr:
  "thread_stats_loop groups stats = Inr r \<Longrightarrow>
   map (\<lambda>t. (thread_subject t, thread_count t)) r =
     map (\<lambda>t. (thread_subject t, thread_count t)) stats @
     map (\<lambda>g. (fst g, length (snd g))) (filter (\<lambda>g. 1 < length (snd g)) groups)"
proof (induction groups arbitrary: stats)
  case Nil
  then show ?case by simp
next
  case (Cons g groups)
  show ?case
  proof (cases "1 < length (snd g)")
    case True
    with Cons.prems obtain dates where
      "thread_stats_loop groups
         (stats @ [\<lparr>thread_subject = fst g, thread_count = length (snd g),
                     thread_date_range = dates\<rparr>]) = Inr r"
      by (cases "get_date_range (snd g)") simp_all
    from Cons.IH [OF this] True show ?thesis
      by simp
  next
    case False
    with Cons.prems have "thread_stats_loop groups stats = Inr r"
      by simp
    from Cons.IH [OF this] False show ?thesis
      by simp
  qed
qed

lemma analyze_threads_returns:
  "(\<exists>r. analyze_threads emails = Inr r) =
     list_all (\<lambda>g. length (snd g) \<le> 1 \<or> one_kind (dates_of (snd g))) (thread_groups emails)"
proof -
  have "(\<exists>r. analyze_threads emails = Inr r) = (analyze_threads emails \<noteq> Inl TypeError)"
    by (cases "analyze_threads emails") (simp_all add: py_error_eq)
  also have "\<dots> = (thread_stats_loop (thread_groups emails) [] \<noteq> Inl TypeError)"
    by (cases "thread_stats_loop (thread_groups emails) []")
      (simp_all add: analyze_threads_def py_error_eq)
  finally show ?thesis
    by (simp add: thread_stats_loop_Inl)
qed

lemma analyze_threads_Inr:
  assumes "analyze_threads emails = Inr r"
  obtains unsorted where
    "r = thread_summary unsorted"
    "map (\<lambda>t. (thread_subject t, thread_count t)) unsorted =
       map (\<lambda>g. (fst g, length (snd g)))
         (filter (\<lambda>g. 1 < length (snd g)) (thread_groups emails))"
proof -
  from assms obtain unsorted where
    u: "thread_stats_loop (thread_groups emails) [] = Inr unsorted" "r = thread_summary unsorted"
    by (cases "thread_stats_loop (thread_groups emails) []")
      (auto simp: analyze_threads_def)
  from thread_stats_loop_Inr [OF u(1)] u(2) that show ?thesis
    by simp
qed

lemma thread_count_entries:
  assumes "map (\<lambda>t. (thread_subject t, thread_count t)) unsorted =
       map (\<lambda>g. (fst g, length (snd g))) (filter (\<lambda>g. 1 < length (snd g)) groups)"
    and "t \<in> set unsorted"
  shows "\<exists>g \<in> set groups. 1 < length (snd g) \<and> thread_subject t = fst g \<and>
           thread_count t = length (snd g)"
proof -
  from assms(2) have "(thread_subject t, thread_count t) \<in>
      set (map (\<lambda>t. (thread_subject t, thread_count t)) unsorted)"
    by (simp add: image_iff) blast
  then have "(thread_subject t, thread_count t) \<in>
      set (map (\<lambda>g. (fst g, length (snd g))) (filter (\<lambda>g. 1 < length (snd g)) groups))"
    by (simp only: assms(1))
  then show ?thesis
    by auto
qed

lemma total_threads_eq:
  assumes "analyze_threads emails = Inr r"
  shows "total_threads r =
     length (filter (\<lambda>g. 2 \<le> length (snd g)) (thread_groups emails))"
proof -
  from assms obtain unsorted where
    r: "r = thread_summary unsorted" and
    u: "map (\<lambda>t. (thread_subject t, thread_count t)) unsorted =
       map (\<lambda>g. (fst g, length (snd g)))
         (filter (\<lambda>g. 1 < length (snd g)) (thread_groups emails))"
    by (rule analyze_threads_Inr)
  have "1 < thread_count t" if "t \<in> set unsorted" for t
    using thread_count_entries [OF u that] by auto
  then have "filter (\<lambda>t. 1 < thread_count t) unsorted = unsorted"
    by (simp add: filter_id_conv)
  then have "total_threads r = length unsorted"
    by (simp add: r thread_summary_def Let_def filter_sort)
  also have "\<dots> = length (map (\<lambda>t. (thread_subject t, thread_count t)) unsorted)"
    by simp
  also have "\<dots> = length (filter (\<lambda>g. 1 < length (snd g)) (thread_groups emails))"
    by (simp only: u length_map)
  also have "(\<lambda>g :: string \<times> email_message list. 1 < length (snd g)) =
             (\<lambda>g. 2 \<le> length (snd g))"
    by auto
  finally show ?thesis .
qed

lemma top_threads_entries:
  assumes "analyze_threads emails = Inr r" "t \<in> set (top_threads r)"
  shows "\<exists>g \<in> set (thread_groups emails). 1 < length (snd g) \<and> thread_subject t = fst g \<and>
           thread_count t = length (snd g)"
proof -
  from assms(1) obtain unsorted where
    r: "r = thread_summary unsorted" and
    u: "map (\<lambda>t. (thread_subject t, thread_count t)) unsorted =
       map (\<lambda>g. (fst g, length (snd g)))
         (filter (\<lambda>g. 1 < length (snd g)) (thread_groups emails))"
    by (rule analyze_threads_Inr)
  from assms(2) have "t \<in> set (take 10 (sort_key (\<lambda>t. - int (thread_count t)) unsorted))"
    by (simp add: r thread_summary_def Let_def)
  then have "t \<in> set unsorted"
    using set_take_subset [of 10 "sort_key (\<lambda>t. - int (thread_count t)) unsorted"] by auto
  from thread_count_entries [OF u this] show ?thesis .
qed

lemma singleton_group_excluded:
  assumes "analyze_threads emails = Inr r" "g \<in> set (thread_groups emails)"
    "length (snd g) = 1"
  shows "fst g \<notin> thread_subject ` set (top_threads r)"
proof
  assume "fst g \<in> thread_subject ` set (top_threads r)"
  then obtain t where t: "t \<in> set (top_threads r)" "thread_subject t = fst g"
    by auto
  from top_threads_entries [OF assms(1) t(1)] obtain h where
    h: "h \<in> set (thread_groups emails)" "1 < length (snd h)" "thread_subject t = fst h"
    by auto
  from h(3) t(2) have "fst h = fst g"
    by simp
  with h(1) have "(fst g, snd h) \<in> set (thread_groups emails)"
    by (metis prod.collapse)
  moreover from assms(2) have "(fst g, snd g) \<in> set (thread_groups emails)"
    by simp
  ultimately have "snd h = snd g"
    by (rule eq_key_imp_eq_value [OF distinct_thread_groups])
  with h(2) assms(3) show False
    by simp
qed

lemma same_key_same_group:
  assumes "e1 \<in> set emails" "e2 \<in> set emails" "subject e1 = Some s1" "subject e2 = Some s2"
    "s1 \<noteq> []" "s2 \<noteq> []" "lower (strip_reply_prefix s1) = lower (strip_reply_prefix s2)"
  shows "\<exists>g. (thread_key s1, g) \<in> set (thread_groups emails) \<and> e1 \<in> set g \<and> e2 \<in> set g"
proof -
  have "subject_key e1 = Some (thread_key s1)" "subject_key e2 = Some (thread_key s1)"
    using assms by (simp_all add: subject_key_def thread_key_strip)
  with assms(1,2) show ?thesis
    by (intro exI [of _ "filter (\<lambda>e. subject_key e = Some (thread_key s1)) emails"])
      (auto simp: thread_groups_member filter_empty_conv)
qed

text \<open>
  C5 (as amended). Any two records of the input with non-empty subjects whose subjects
  become equal after stripping a leading reply or forward prefix (\<^verbatim>\<open>Re:\<close>,
  \<^verbatim>\<open>Fwd:\<close>, \<^verbatim>\<open>FW:\<close>, case-insensitive, with the whitespace after it) and
  lowercasing are members of one group of the thread analysis, filed under that key; the
  computed thread key is this stripped and lowercased subject, and no two groups share a
  key. The subjects \<^verbatim>\<open>Re: Budget Q1\<close>, \<^verbatim>\<open>RE: budget q1\<close> and \<^verbatim>\<open>Budget Q1\<close> have the
  key \<^verbatim>\<open>budget q1\<close>; a no-break space and a file separator after the prefix are
  stripped as whitespace. Thread analysis returns a result exactly when no group of two
  or more members has both offset-naive and offset-aware dates. In the result,
  \<^verbatim>\<open>total_threads\<close> counts the groups of two or more members, every entry of
  \<^verbatim>\<open>top_threads\<close> has two or more members, and the key of a group with exactly one
  member is not among the subjects of \<^verbatim>\<open>top_threads\<close>.
\<close>

theorem thread_grouping:
  "(\<forall>e1 e2 s1 s2.
      e1 \<in> set emails \<and> e2 \<in> set emails \<and> subject e1 = Some s1 \<and> subject e2 = Some s2 \<and>
      s1 \<noteq> [] \<and> s2 \<noteq> [] \<and> lower (strip_reply_prefix s1) = lower (strip_reply_prefix s2) \<longrightarrow>
      (\<exists>g. (thread_key s1, g) \<in> set (thread_groups emails) \<and> e1 \<in> set g \<and> e2 \<in> set g)) \<and>
   (\<forall>s. thread_key s = lower (strip_reply_prefix s)) \<and>
   distinct (map fst (thread_groups emails)) \<and>
   thread_key ''Re: Budget Q1'' = ''budget q1'' \<and>
   thread_key ''RE: budget q1'' = ''budget q1'' \<and>
   thread_key ''Budget Q1'' = ''budget q1'' \<and>
   thread_key (''Fwd:'' @ [CHR 0xA0, CHR 0x1C] @ ''Budget Q1'') = ''budget q1'' \<and>
   (\<exists>r. analyze_threads emails = Inr r) =
     list_all (\<lambda>g. length (snd g) \<le> 1 \<or> one_kind (dates_of (snd g))) (thread_groups emails) \<and>
   (\<forall>r. analyze_threads emails = Inr r \<longrightarrow>
      total_threads r = length (filter (\<lambda>g. 2 \<le> length (snd g)) (thread_groups emails)) \<and>
      (\<forall>t \<in> set (top_threads r). 2 \<le> thread_count t) \<and>
      (\<forall>g \<in> set (thread_groups emails).
         length (snd g) = 1 \<longrightarrow> fst g \<notin> thread_subject ` set (top_threads r)))"
proof (intro conjI)
  show "\<forall>e1 e2 s1 s2.
      e1 \<in> set emails \<and> e2 \<in> set emails \<and> subject e1 = Some s1 \<and> subject e2 = Some s2 \<and>
      s1 \<noteq> [] \<and> s2 \<noteq> [] \<and> lower (strip_reply_prefix s1) = lower (strip_reply_prefix s2) \<longrightarrow>
      (\<exists>g. (thread_key s1, g) \<in> set (thread_groups emails) \<and> e1 \<in> set g \<and> e2 \<in> set g)"
    using same_key_same_group by blast
  show "\<forall>s. thread_key s = lower (strip_reply_prefix s)"
    by (simp add: thread_key_strip)
  show "distinct (map fst (thread_groups emails))"
    by (rule distinct_thread_groups)
  show "thread_key ''Re: Budget Q1'' = ''budget q1''"
    by code_simp
  show "thread_key ''RE: budget q1'' = ''budget q1''"
    by code_simp
  show "thread_key ''Budget Q1'' = ''budget q1''"
    by code_simp
  show "thread_key (''Fwd:'' @ [CHR 0xA0, CHR 0x1C] @ ''Budget Q1'') = ''budget q1''"
    by code_simp
  show "(\<exists>r. analyze_threads emails = Inr r) =
     list_all (\<lambda>g. length (snd g) \<le> 1 \<or> one_kind (dates_of (snd g))) (thread_groups emails)"
    by (rule analyze_threads_returns)
  show "\<forall>r. analyze_threads emails = Inr r \<longrightarrow>
      total_threads r = length (filter (\<lambda>g. 2 \<le> length (snd g)) (thread_groups emails)) \<and>
      (\<forall>t \<in> set (top_threads r). 2 \<le> thread_count t) \<and>
      (\<forall>g \<in> set (thread_groups emails).
         length (snd g) = 1 \<longrightarrow> fst g \<notin> thread_subject ` set (top_threads r))"
  proof (intro allI impI conjI ballI)
    fix r
    assume r: "analyze_threads emails = Inr r"
    show "total_threads r = length (filter (\<lambda>g. 2 \<le> length (snd g)) (thread_groups emails))"
      by (rule total_threads_eq [OF r])
    show "2 \<le> thread_count t" if "t \<in> set (top_threads r)" for t
      using top_threads_entries [OF r that] by auto
    show "fst g \<notin> thread_subject ` set (top_threads r)"
      if "g \<in> set (thread_groups emails)" "length (snd g) = 1" for g
      by (rule singleton_group_excluded [OF r that])
  qed
qed

theorem thread_grouping_witness:
  "(\<exists>g. (''budget q1'', g) \<in> set (thread_groups budget_thread) \<and>
        budget_thread ! 0 \<in> set g \<and> budget_thread ! 2 \<in> set g) \<and>
   (\<exists>r. analyze_threads budget_thread = Inr r \<and> total_threads r = 1)"
proof -
  have h: "budget_thread ! 0 \<in> set budget_thread \<and> budget_thread ! 2 \<in> set budget_thread \<and>
      subject (budget_thread ! 0) = Some ''Re: Budget Q1'' \<and>
      subject (budget_thread ! 2) = Some ''Budget Q1'' \<and>
      ''Re: Budget Q1'' \<noteq> [] \<and> ''Budget Q1'' \<noteq> []"
    by (simp add: budget_thread_def message_def)
  have k: "lower (strip_reply_prefix ''Re: Budget Q1'') = lower (strip_reply_prefix ''Budget Q1'')"
    by code_simp
  have n: "length (filter (\<lambda>g. 2 \<le> length (snd g)) (thread_groups budget_thread)) = 1"
    by code_simp
  have o: "list_all (\<lambda>g. length (snd g) \<le> 1 \<or> one_kind (dates_of (snd g)))
             (thread_groups budget_thread)"
    by code_simp
  note t = thread_grouping [of budget_thread]
  from t h k have "\<exists>g. (thread_key ''Re: Budget Q1'', g) \<in> set (thread_groups budget_thread) \<and>
        budget_thread ! 0 \<in> set g \<and> budget_thread ! 2 \<in> set g"
    by blast
  moreover from t have "thread_key ''Re: Budget Q1'' = ''budget q1''"
    by blast
  moreover from t o obtain r where r: "analyze_threads budget_thread = Inr r"
    by blast
  moreover from t r n have "total_threads r = 1"
    by simp
  ultimately show ?thesis
    by auto
qed

text \<open>
  C5 (counterexample to the claim as stated). The subjects \<^verbatim>\<open>"Re: "\<close> and \<^verbatim>\<open>""\<close>
  are equal after stripping and lowercasing, but the record with the empty subject is
  skipped by the grouping loop: the only group has the key \<^verbatim>\<open>""\<close> and the first record
  as its one member.
\<close>

theorem blank_subject_counterexample:
  "lower (strip_reply_prefix ''Re: '') = lower (strip_reply_prefix []) \<and>
   map (\<lambda>g. (fst g, map subject (snd g))) (thread_groups blank_subjects) = [([], [Some ''Re: ''])]"
  by code_simp

subsection \<open>Stacked prefixes\<close>

lemma lower_append: "lower (a @ b) = lower a @ lower b"
  by (simp add: lower_def)

lemma lower_take: "lower (take n s) = take n (lower s)"
  by (simp add: lower_def take_map)

lemma length_lower: "length (lower s) = length s"
  by (simp add: lower_def)

lemma lower_literals:
  "lower ''Re:'' = ''re:''" "lower ''Fwd:'' = ''fwd:''" "lower ''FW:'' = ''fw:''"
  by (simp_all add: lower_def lower_char_def letters_defs)

lemma strip_reply_prefix_append:
  assumes "is_reply_prefix p"
  shows "strip_reply_prefix (p @ x) = dropWhile is_space x"
proof -
  from assms consider "lower p = ''re:''" | "lower p = ''fwd:''" | "lower p = ''fw:''"
    by (auto simp: is_reply_prefix_def)
  then show ?thesis
  proof cases
    case 1
    then have "length p = 3"
      using length_lower [of p] by simp
    with 1 show ?thesis
      by (simp add: strip_reply_prefix_def has_prefix_ci_def lower_take lower_append
          lower_literals)
  next
    case 2
    then have "length p = 4"
      using length_lower [of p] by simp
    with 2 show ?thesis
      by (simp add: strip_reply_prefix_def has_prefix_ci_def lower_take lower_append
          lower_literals)
  next
    case 3
    then have "length p = 3"
      using length_lower [of p] by simp
    with 3 show ?thesis
      by (simp add: strip_reply_prefix_def has_prefix_ci_def lower_take lower_append
          lower_literals)
  qed
qed

lemma lower_char_other: "c \<notin> set upper_letters \<Longrightarrow> lower_char c = c"
proof -
  assume "c \<notin> set upper_letters"
  moreover have "map fst (zip upper_letters lower_letters) = upper_letters"
    by (simp add: letters_defs)
  ultimately have "map_of (zip upper_letters lower_letters) c = None"
    by (metis map_of_eq_None_iff set_map)
  then show ?thesis
    by (simp add: lower_char_def)
qed

lemma is_space_not_upper: "is_space c \<Longrightarrow> c \<notin> set upper_letters"
  by (auto simp: is_space_def letters_defs)

lemma is_space_lower: "is_space c \<Longrightarrow> lower_char c = c"
  by (simp add: lower_char_other is_space_not_upper)

lemma reply_prefix_head:
  assumes "is_reply_prefix p"
  shows "\<exists>c t. p = c # t \<and> \<not> is_space c"
proof -
  from assms obtain c t where p: "p = c # t"
    by (cases p) (auto simp: is_reply_prefix_def lower_def)
  with assms have rf: "lower_char c = CHR ''r'' \<or> lower_char c = CHR ''f''"
    by (auto simp: is_reply_prefix_def lower_def)
  have "\<not> is_space c"
  proof
    assume s: "is_space c"
    then have "lower_char c = c"
      by (rule is_space_lower)
    with rf have "c = CHR ''r'' \<or> c = CHR ''f''"
      by simp
    then show False
    proof
      assume "c = CHR ''r''"
      with s show False
        by (simp add: is_space_def)
    next
      assume "c = CHR ''f''"
      with s show False
        by (simp add: is_space_def)
    qed
  qed
  with p show ?thesis by blast
qed

lemma dropWhile_spaces_prefix:
  assumes "list_all is_space w" "is_reply_prefix p"
  shows "dropWhile is_space (w @ p @ x) = p @ x"
proof -
  from reply_prefix_head [OF assms(2)] obtain c t where "p = c # t" "\<not> is_space c"
    by blast
  with assms(1) show ?thesis
    by (simp add: dropWhile_append3 list_all_iff)
qed


lemma stacked_key:
  assumes "is_reply_prefix p1" "is_reply_prefix p2" "list_all is_space w1"
  shows "thread_key (p1 @ w1 @ p2 @ x) = lower (p2 @ x)"
  using assms by (simp add: thread_key_strip strip_reply_prefix_append dropWhile_spaces_prefix)

lemma length_thread_key: "length (thread_key s) \<le> length s"
  by (simp add: thread_key_strip length_lower length_strip_reply_prefix)

lemma stacked_key_differs:
  assumes "is_reply_prefix p1" "is_reply_prefix p2" "list_all is_space w1"
  shows "thread_key (p1 @ w1 @ p2 @ w2 @ rest) \<noteq> thread_key rest"
proof -
  from reply_prefix_head [OF assms(2)] have "0 < length p2"
    by auto
  then have "length rest < length (lower (p2 @ w2 @ rest))"
    by (simp add: length_lower)
  with length_thread_key [of rest] stacked_key [OF assms, of "w2 @ rest"] show ?thesis
    by auto
qed

lemma group_member_key:
  "g \<in> set (thread_groups emails) \<Longrightarrow> e \<in> set (snd g) \<Longrightarrow> subject_key e = Some (fst g)"
proof -
  assume "g \<in> set (thread_groups emails)" and e: "e \<in> set (snd g)"
  then have "(fst g, snd g) \<in> set (thread_groups emails)" by simp
  then have "snd g = filter (\<lambda>e. subject_key e = Some (fst g)) emails"
    by (simp only: thread_groups_member)
  then have "e \<in> set (filter (\<lambda>e. subject_key e = Some (fst g)) emails)"
    using e by simp
  then show ?thesis
    by simp
qed

text \<open>
  C10. The thread key loses at most one leading prefix. For every subject that begins
  with a reply or forward prefix, whitespace, and a second such prefix, the thread key is
  the lowercased subject from the second prefix on; it differs from the thread key of
  the bare subject that follows the second prefix (and its whitespace), so that no thread
  group holds a record with the stacked subject together with a record with the bare
  one. \<^verbatim>\<open>Re: Fwd: Hello\<close> has the key \<^verbatim>\<open>fwd: hello\<close>.
\<close>

theorem stacked_prefixes:
  "is_reply_prefix p1 \<Longrightarrow> is_reply_prefix p2 \<Longrightarrow> list_all is_space w1 \<Longrightarrow>
   thread_key (p1 @ w1 @ p2 @ w2 @ rest) = lower (p2 @ w2 @ rest) \<and>
   thread_key (p1 @ w1 @ p2 @ w2 @ rest) \<noteq> thread_key rest \<and>
   (\<forall>e1 e2 g. subject e1 = Some (p1 @ w1 @ p2 @ w2 @ rest) \<and> subject e2 = Some rest \<and>
              g \<in> set (thread_groups emails) \<longrightarrow>
              \<not> (e1 \<in> set (snd g) \<and> e2 \<in> set (snd g)))"
proof (intro conjI allI impI)
  assume p: "is_reply_prefix p1" "is_reply_prefix p2" "list_all is_space w1"
  show "thread_key (p1 @ w1 @ p2 @ w2 @ rest) = lower (p2 @ w2 @ rest)"
    by (rule stacked_key [OF p])
  show differs: "thread_key (p1 @ w1 @ p2 @ w2 @ rest) \<noteq> thread_key rest"
    by (rule stacked_key_differs [OF p])
  fix e1 e2 :: email_message and g
  assume a: "subject e1 = Some (p1 @ w1 @ p2 @ w2 @ rest) \<and> subject e2 = Some rest \<and>
              g \<in> set (thread_groups emails)"
  show "\<not> (e1 \<in> set (snd g) \<and> e2 \<in> set (snd g))"
  proof
    assume "e1 \<in> set (snd g) \<and> e2 \<in> set (snd g)"
    with a have "subject_key e1 = Some (fst g)" "subject_key e2 = Some (fst g)"
      using group_member_key by blast+
    with a have "thread_key (p1 @ w1 @ p2 @ w2 @ rest) = thread_key rest"
      by (auto simp: subject_key_def split: if_splits)
    with differs show False by simp
  qed
qed

theorem stacked_prefixes_witness:
  "is_reply_prefix ''Re:'' \<and> is_reply_prefix ''Fwd:'' \<and> list_all is_space '' '' \<and>
   thread_key ''Re: Fwd: Hello'' = ''fwd: hello'' \<and>
   thread_key ''Re: Fwd: Hello'' \<noteq> thread_key ''Hello'' \<and>
   map (\<lambda>g. (fst g, map subject (snd g))) (thread_groups stacked_subjects) =
     [(''fwd: hello'', [Some ''Re: Fwd: Hello'']), (''hello'', [Some ''Hello''])]"
proof -
  have p: "is_reply_prefix ''Re:''" "is_reply_prefix ''Fwd:''" "list_all is_space '' ''"
    by (simp_all add: is_reply_prefix_def lower_literals is_space_def)
  have l: "lower (''Fwd:'' @ '' '' @ ''Hello'') = ''fwd: hello''"
    by (simp add: lower_def lower_char_def letters_defs)
  have g: "map (\<lambda>g. (fst g, map subject (snd g))) (thread_groups stacked_subjects) =
     [(''fwd: hello'', [Some ''Re: Fwd: Hello'']), (''hello'', [Some ''Hello''])]"
    by code_simp
  note t = stacked_prefixes [OF p, of "'' ''" "''Hello''" "stacked_subjects"]
  from t have "thread_key ''Re: Fwd: Hello'' = lower (''Fwd:'' @ '' '' @ ''Hello'')"
    by simp
  with l have k: "thread_key ''Re: Fwd: Hello'' = ''fwd: hello''"
    by simp
  from t have d: "thread_key ''Re: Fwd: Hello'' \<noteq> thread_key ''Hello''"
    by (elim conjE) simp
  from p g k d show ?thesis
    by blast
qed

end
